theory Spec2Isabelle
  imports Main
begin

section \<open>Results, errors and terms\<close>

text \<open>
  The solver's answer (\<^verbatim>\<open>Result\<close> of \<^verbatim>\<open>solver/result.h\<close>) and the ways a call can
  fail. An \<^verbatim>\<open>assert\<close> of the C++ sources is modelled as checked: a violated assertion
  is the error \<open>AssertionFailure\<close>. \<open>Abort\<close> is \<^verbatim>\<open>abort()\<close> after a diagnostic, and
  carries what the diagnostic lists.
\<close>

datatype Result = SAT | UNSAT | UNKNOWN

datatype Kind =
    CONSTANT | VARIABLE | VALUE
  | NOT | AND | OR | IMPLIES | EQUAL | ITE
  | APPLY | FORALL | EXISTS | LAMBDA
  | BV_ADD | BV_MUL

text \<open>
  Sorts (\<^verbatim>\<open>Type\<close>): a function sort holds its domain sorts followed by the codomain
  (\<^verbatim>\<open>fun_types()\<close>).
\<close>

datatype Type = BoolT | BvT nat | FunT "Type list"

text \<open>
  A hash-consed node: kind, ordered children, sort and an identifier (the symbol of a
  constant or variable, the payload of a value). Hash-consing makes equality of handles
  structural equality, which is equality of the datatype.
\<close>

datatype Node = Node (kind: Kind) (children: "Node list") (ntype: Type) (nid: nat)

datatype error =
    AssertionFailure
  | Abort "Node set"
  | ComputeValueException Node

definition is_bool :: "Type \<Rightarrow> bool" where
  "is_bool t = (t = BoolT)"

section \<open>The Kissat SAT backend\<close>

text \<open>
  \<^verbatim>\<open>sat/kissat.cpp\<close>. The Kissat library itself is external; its entry points are the
  fields of \<open>KissatLib\<close>, over an abstract solver state \<open>'k\<close>. Each wrapper method takes
  the wrapped solver \<^verbatim>\<open>d_solver\<close> and returns an error or its result.
\<close>

record ('k, 'cb) KissatLib =
  kissat_add :: "'k \<Rightarrow> int \<Rightarrow> 'k"
  kissat_value :: "'k \<Rightarrow> int \<Rightarrow> int"
  kissat_solve :: "'k \<Rightarrow> int \<times> 'k"
  kissat_set_terminate :: "'k \<Rightarrow> 'cb \<Rightarrow> 'k"
  kissat_version :: string

definition Kissat_add :: "('k, 'cb) KissatLib \<Rightarrow> 'k \<Rightarrow> int \<Rightarrow> error + 'k" where
  "Kissat_add L d_solver lit = Inr (kissat_add L d_solver lit)"

definition Kissat_assume :: "('k, 'cb) KissatLib \<Rightarrow> 'k \<Rightarrow> int \<Rightarrow> error + 'k" where
  "Kissat_assume L d_solver lit = Inl AssertionFailure"

definition Kissat_value :: "('k, 'cb) KissatLib \<Rightarrow> 'k \<Rightarrow> int \<Rightarrow> error + int" where
  "Kissat_value L d_solver lit =
     (let val = kissat_value L d_solver lit
      in if val > 0 then Inr 1 else if val < 0 then Inr (- 1) else Inr 0)"

definition Kissat_failed :: "('k, 'cb) KissatLib \<Rightarrow> 'k \<Rightarrow> int \<Rightarrow> error + bool" where
  "Kissat_failed L d_solver lit = Inl AssertionFailure"

definition Kissat_fixed :: "('k, 'cb) KissatLib \<Rightarrow> 'k \<Rightarrow> int \<Rightarrow> error + int" where
  "Kissat_fixed L d_solver lit = Inl AssertionFailure"

definition Kissat_solve :: "('k, 'cb) KissatLib \<Rightarrow> 'k \<Rightarrow> error + (Result \<times> 'k)" where
  "Kissat_solve L d_solver =
     (let (res, s) = kissat_solve L d_solver
      in if res = 10 then Inr (SAT, s)
         else if res = 20 then Inr (UNSAT, s)
         else Inr (UNKNOWN, s))"

definition Kissat_set_terminate :: "('k, 'cb) KissatLib \<Rightarrow> 'k \<Rightarrow> 'cb \<Rightarrow> error + 'k" where
  "Kissat_set_terminate L d_solver cb = Inr (kissat_set_terminate L d_solver cb)"

definition Kissat_get_version :: "('k, 'cb) KissatLib \<Rightarrow> error + string" where
  "Kissat_get_version L = Inr (kissat_version L)"

text \<open>
  A client drives the backend through a sequence of calls of its methods, each on the
  solver the calls before have left. \<open>Kissat_call\<close> is one call with the answer it
  returns, and \<open>Kissat_run\<close> the sequence, which a failed assertion ends. The calls of
  solving under assumptions are \<^verbatim>\<open>assume\<close>, which adds an assumption, and
  \<^verbatim>\<open>failed\<close> and \<^verbatim>\<open>fixed\<close>, which ask about a literal after the solving.
\<close>

datatype 'cb SatCall =
    Call_add int
  | Call_assume int
  | Call_value int
  | Call_failed int
  | Call_fixed int
  | Call_solve
  | Call_set_terminate 'cb
  | Call_get_version

datatype Answer =
    Returned
  | Returned_int int
  | Returned_bool bool
  | Returned_result Result
  | Returned_string string

definition Kissat_call ::
  "('k, 'cb) KissatLib \<Rightarrow> 'k \<Rightarrow> 'cb SatCall \<Rightarrow> error + (Answer \<times> 'k)" where
  "Kissat_call L d_solver c =
     (case c of
        Call_add lit \<Rightarrow>
          (case Kissat_add L d_solver lit of Inl e \<Rightarrow> Inl e | Inr s \<Rightarrow> Inr (Returned, s))
      | Call_assume lit \<Rightarrow>
          (case Kissat_assume L d_solver lit of Inl e \<Rightarrow> Inl e | Inr s \<Rightarrow> Inr (Returned, s))
      | Call_value lit \<Rightarrow>
          (case Kissat_value L d_solver lit of
             Inl e \<Rightarrow> Inl e
           | Inr v \<Rightarrow> Inr (Returned_int v, d_solver))
      | Call_failed lit \<Rightarrow>
          (case Kissat_failed L d_solver lit of
             Inl e \<Rightarrow> Inl e
           | Inr b \<Rightarrow> Inr (Returned_bool b, d_solver))
      | Call_fixed lit \<Rightarrow>
          (case Kissat_fixed L d_solver lit of
             Inl e \<Rightarrow> Inl e
           | Inr v \<Rightarrow> Inr (Returned_int v, d_solver))
      | Call_solve \<Rightarrow>
          (case Kissat_solve L d_solver of
             Inl e \<Rightarrow> Inl e
           | Inr (r, s) \<Rightarrow> Inr (Returned_result r, s))
      | Call_set_terminate cb \<Rightarrow>
          (case Kissat_set_terminate L d_solver cb of
             Inl e \<Rightarrow> Inl e
           | Inr s \<Rightarrow> Inr (Returned, s))
      | Call_get_version \<Rightarrow>
          (case Kissat_get_version L of
             Inl e \<Rightarrow> Inl e
           | Inr v \<Rightarrow> Inr (Returned_string v, d_solver)))"

fun Kissat_run ::
  "('k, 'cb) KissatLib \<Rightarrow> 'k \<Rightarrow> 'cb SatCall list \<Rightarrow> error + (Answer list \<times> 'k)" where
  "Kissat_run L d_solver [] = Inr ([], d_solver)"
| "Kissat_run L d_solver (c # cs) =
     (case Kissat_call L d_solver c of
        Inl e \<Rightarrow> Inl e
      | Inr (a, s) \<Rightarrow>
          (case Kissat_run L s cs of
             Inl e \<Rightarrow> Inl e
           | Inr (as, s') \<Rightarrow> Inr (a # as, s')))"

definition assumption_call :: "'cb SatCall \<Rightarrow> bool" where
  "assumption_call c =
     (case c of
        Call_assume lit \<Rightarrow> True
      | Call_failed lit \<Rightarrow> True
      | Call_fixed lit \<Rightarrow> True
      | _ \<Rightarrow> False)"

text \<open>
  The same sequence of calls made of the library itself, for a sequence without a call
  of solving under assumptions: what a client of the backend is to get.
\<close>

definition result_of_code :: "int \<Rightarrow> Result" where
  "result_of_code res = (if res = 10 then SAT else if res = 20 then UNSAT else UNKNOWN)"

fun library_run ::
  "('k, 'cb) KissatLib \<Rightarrow> 'k \<Rightarrow> 'cb SatCall list \<Rightarrow> Answer list \<times> 'k" where
  "library_run L s [] = ([], s)"
| "library_run L s (c # cs) =
     (let (a, s') =
        (case c of
           Call_add lit \<Rightarrow> (Returned, kissat_add L s lit)
         | Call_value lit \<Rightarrow> (Returned_int (sgn (kissat_value L s lit)), s)
         | Call_solve \<Rightarrow>
             (Returned_result (result_of_code (fst (kissat_solve L s))), snd (kissat_solve L s))
         | Call_set_terminate cb \<Rightarrow> (Returned, kissat_set_terminate L s cb)
         | Call_get_version \<Rightarrow> (Returned_string (kissat_version L), s)
         | _ \<Rightarrow> (Returned, s));
          (as, s'') = library_run L s' cs
      in (a # as, s''))"

text \<open>
  \<^verbatim>\<open>SatSolver\<close> of \<^verbatim>\<open>option/option.h\<close>, the values of the option \<^verbatim>\<open>sat_solver\<close>.
\<close>

datatype SatSolver = CADICAL | CRYPTOMINISAT | KISSAT | LINGELING

text \<open>
  Modelled from the spec: the code that creates the SAT backend is not among the
  sources. The option \<^verbatim>\<open>sat_solver\<close> selects the embedded engine, so with the value
  \<^verbatim>\<open>kissat\<close> the calls of a client go to the Kissat backend; the other backends are
  the parameter \<open>others\<close>.
\<close>

definition backend_run ::
  "(SatSolver \<Rightarrow> 'k \<Rightarrow> 'cb SatCall list \<Rightarrow> error + (Answer list \<times> 'k))
   \<Rightarrow> ('k, 'cb) KissatLib \<Rightarrow> SatSolver \<Rightarrow> 'k \<Rightarrow> 'cb SatCall list
   \<Rightarrow> error + (Answer list \<times> 'k)" where
  "backend_run others L sat_solver s calls =
     (case sat_solver of
        KISSAT \<Rightarrow> Kissat_run L s calls
      | _ \<Rightarrow> others sat_solver s calls)"

text \<open>
  A sample library: the solver is the list of the literals added, newest first; every
  literal has itself as its value, and solving answers 10 and leaves the solver as it
  is.
\<close>

definition sample_lib :: "(int list, unit) KissatLib" where
  "sample_lib =
     \<lparr> kissat_add = (\<lambda>s lit. lit # s), kissat_value = (\<lambda>s lit. lit),
       kissat_solve = (\<lambda>s. (10, s)), kissat_set_terminate = (\<lambda>s cb. s),
       kissat_version = ''sample'' \<rparr>"

section \<open>The command-line front end\<close>

text \<open>
  \<^verbatim>\<open>main/main.cpp\<close>. \<^verbatim>\<open>EXIT_SUCCESS\<close> and \<^verbatim>\<open>EXIT_FAILURE\<close> are the values of
  \<^verbatim>\<open>cstdlib\<close>. \<^verbatim>\<open>std::string::find\<close> returns the first position of the pattern or
  \<^verbatim>\<open>npos\<close>, and \<^verbatim>\<open>arg.size() - 5\<close> is computed in \<^verbatim>\<open>size_t\<close>, so it wraps for an
  argument shorter than five characters.
\<close>

definition EXIT_SUCCESS :: int where
  "EXIT_SUCCESS = 0"

definition EXIT_FAILURE :: int where
  "EXIT_FAILURE = 1"

definition npos :: nat where
  "npos = 2 ^ 64 - 1"

fun str_find :: "string \<Rightarrow> string \<Rightarrow> nat \<Rightarrow> nat" where
  "str_find pat [] i = (if pat = [] then i else npos)"
| "str_find pat (c # cs) i =
     (if take (length pat) (c # cs) = pat then i else str_find pat cs (Suc i))"

definition size_t_sub :: "nat \<Rightarrow> nat \<Rightarrow> nat" where
  "size_t_sub a b = (a + 2 ^ 64 - b) mod 2 ^ 64"

definition is_input_file :: "string \<Rightarrow> bool" where
  "is_input_file arg =
     (str_find ''.smt2'' arg 0 = size_t_sub (length arg) 5
      \<or> str_find ''.btor'' arg 0 = size_t_sub (length arg) 5)"

text \<open>
  The collaborators of \<^verbatim>\<open>main\<close> that the sources do not hold:
  \<^verbatim>\<open>Options::set(args)\<close>, which throws an exception with a message or yields the
  configured options, and \<^verbatim>\<open>bitwuzla::parse(options, filename)\<close>. \<^verbatim>\<open>parse\<close> runs the
  commands of the input, including its satisfiability checks, and returns only an error
  message (empty on success): the first component of the model's result is the answer
  the solver gave during the run, which \<^verbatim>\<open>main\<close> never sees.
\<close>

record 'o Cli =
  options_set :: "string list \<Rightarrow> string + 'o"
  parse :: "'o \<Rightarrow> string \<Rightarrow> Result \<times> string"

text \<open>
  The argument loop: \<^verbatim>\<open>bzla_exit\<close> does not return, so a help, copyright or version
  flag ends the run at once with its status (\<open>Inl\<close>); otherwise the loop yields the
  option arguments and the file name.
\<close>

fun scan_args :: "string list \<Rightarrow> string list \<Rightarrow> string \<Rightarrow> int + (string list \<times> string)" where
  "scan_args [] args filename = Inr (args, filename)"
| "scan_args (arg # rest) args filename =
     (if arg = ''-h'' \<or> arg = ''--help'' then Inl EXIT_SUCCESS
      else if arg = ''-c'' \<or> arg = ''--copyright'' then Inl EXIT_SUCCESS
      else if arg = ''-V'' \<or> arg = ''--version'' then Inl EXIT_SUCCESS
      else if is_input_file arg then scan_args rest args arg
      else scan_args rest (args @ [arg]) filename)"

definition main :: "'o Cli \<Rightarrow> string list \<Rightarrow> int" where
  "main C argv =
     (case scan_args (tl argv) [] [] of
        Inl status \<Rightarrow> status
      | Inr (args, filename) \<Rightarrow>
          (case options_set C args of
             Inl msg \<Rightarrow> EXIT_FAILURE
           | Inr options \<Rightarrow>
               (let err_msg = snd (parse C options filename)
                in if err_msg = [] then EXIT_SUCCESS else EXIT_FAILURE)))"

text \<open>
  The exit code the specification words give: 10 for a satisfiable input, 20 for an
  unsatisfiable one, 0 for any other successful run.
\<close>

definition spec_exit_code :: "Result \<Rightarrow> int" where
  "spec_exit_code r = (case r of SAT \<Rightarrow> 10 | UNSAT \<Rightarrow> 20 | UNKNOWN \<Rightarrow> 0)"

text \<open>A run on a satisfiable input file, with no option arguments and no error.\<close>

definition sat_run :: "unit Cli" where
  "sat_run = \<lparr> options_set = (\<lambda>args. Inr ()), parse = (\<lambda>opts filename. (SAT, [])) \<rparr>"

definition failing_run :: "unit Cli" where
  "failing_run =
     \<lparr> options_set = (\<lambda>args. if args = [] then Inr () else Inl ''invalid option''),
       parse = (\<lambda>opts filename. (UNKNOWN, ''parse error'')) \<rparr>"

section \<open>Options, the environment and the API object\<close>

text \<open>
  \<^verbatim>\<open>option/option.h\<close>: the option identifiers and the class \<^verbatim>\<open>Options\<close>. An
  options object holds one member object for each option (\<^verbatim>\<open>OptionBool incremental\<close>
  and its like), which holds the current value, and the table \<^verbatim>\<open>d_options\<close> of the
  registered options, a \<^verbatim>\<open>std::unordered_map\<close> from the identifier to a pointer to
  the member object (\<^verbatim>\<open>OptionBase*\<close>).
\<close>

datatype Option =
    INCREMENTAL | LOG_LEVEL | PRODUCE_MODELS | PRODUCE_UNSAT_CORES | SAT_SOLVER | SEED
  | VERBOSITY | BV_SOLVER | REWRITE_LEVEL | SMT_COMP_MODE
  | PROP_NPROPS | PROP_NUPDATES | PROP_PATH_SEL | PROP_PROB_PICK_INV_VALUE
  | PROP_PROB_PICK_RANDOM_INPUT | PROP_CONST_BITS | PROP_INEQ_BOUNDS
  | PROP_OPT_LT_CONCAT_SEXT | PROP_SEXT
  | PP_CONTRADICTING_ANDS | PP_ELIM_BV_EXTRACTS | PP_EMBEDDED_CONSTR | PP_FLATTEN_AND
  | PP_NORMALIZE | PP_NORMALIZE_SHARE_AWARE | PP_SKELETON_PREPROC | PP_VARIABLE_SUBST
  | PP_VARIABLE_SUBST_NORM_BV_INEQ | PP_VARIABLE_SUBST_NORM_EQ
  | DBG_RW_NODE_THRESH | DBG_PP_NODE_THRESH

datatype OptionValue = BoolV bool | NumV nat | ModeV string

text \<open>
  Options objects live at addresses. The model names a member object by the address
  of the options object it is a member of: \<open>o_members\<close> are the values of the
  object's own members, and \<open>o_table opt\<close> is the address of the options object whose
  member the table entry of \<open>opt\<close> points to. The class declares no copy
  constructor, so a copy is memberwise: the copy has members of its own, with the
  values of the original, and the pointers of the original. In the model the copy is
  the same record value.

  The accessors the solver reads (\<^verbatim>\<open>options.pp_flatten_and()\<close> and its like) are
  calls of the object's own members and read their Boolean value.
\<close>

type_synonym addr = nat

record Options =
  o_members :: "Option \<Rightarrow> OptionValue"
  o_table :: "Option \<Rightarrow> addr"

definition opt_bool :: "Options \<Rightarrow> Option \<Rightarrow> bool" where
  "opt_bool options opt = (o_members options opt = BoolV True)"

definition incremental :: "Options \<Rightarrow> bool" where
  "incremental options = opt_bool options INCREMENTAL"

definition pp_flatten_and :: "Options \<Rightarrow> bool" where
  "pp_flatten_and options = opt_bool options PP_FLATTEN_AND"

definition pp_variable_subst :: "Options \<Rightarrow> bool" where
  "pp_variable_subst options = opt_bool options PP_VARIABLE_SUBST"

definition pp_skeleton_preproc :: "Options \<Rightarrow> bool" where
  "pp_skeleton_preproc options = opt_bool options PP_SKELETON_PREPROC"

definition pp_embedded_constr :: "Options \<Rightarrow> bool" where
  "pp_embedded_constr options = opt_bool options PP_EMBEDDED_CONSTR"

definition pp_contr_ands :: "Options \<Rightarrow> bool" where
  "pp_contr_ands options = opt_bool options PP_CONTRADICTING_ANDS"

definition pp_normalize :: "Options \<Rightarrow> bool" where
  "pp_normalize options = opt_bool options PP_NORMALIZE"

text \<open>
  A terminator is a caller's object with one method \<^verbatim>\<open>terminate()\<close>; the model gives
  its answer to the \<open>k\<close>-th call. \<^verbatim>\<open>Env\<close> (\<^verbatim>\<open>env.h\<close>) holds its options by value
  (\<^verbatim>\<open>const option::Options d_options\<close>), initialised as a copy of the constructor's
  argument, and a pointer to the terminator.
\<close>

datatype Terminator = Terminator (terminate: "nat \<Rightarrow> bool")

record Env =
  d_options :: Options
  d_terminator :: "Terminator option"

definition Env_new :: "Options \<Rightarrow> Env" where
  "Env_new options = \<lparr> d_options = options, d_terminator = None \<rparr>"

definition Env_terminate :: "Env \<Rightarrow> nat \<Rightarrow> bool" where
  "Env_terminate env k =
     (case d_terminator env of None \<Rightarrow> False | Some t \<Rightarrow> terminate t k)"

text \<open>
  Modelled from the spec: the backtrack manager and the assertion stack
  (\<^verbatim>\<open>backtrack/\<close>) are not among the sources. The manager is its number of levels;
  \<^verbatim>\<open>push\<close> begins a new level and popping past the root fails. The assertion stack is
  the ordered sequence of (level, term) pairs; a pop discards the pairs of the popped
  level.
\<close>

definition BacktrackManager_push :: "nat \<Rightarrow> nat" where
  "BacktrackManager_push num_levels = Suc num_levels"

definition BacktrackManager_pop :: "nat \<Rightarrow> error + nat" where
  "BacktrackManager_pop num_levels =
     (if num_levels = 0 then Inl AssertionFailure else Inr (num_levels - 1))"

record SolvingContext =
  d_env :: Env
  d_backtrack_mgr :: nat
  d_assertions :: "(nat \<times> Node) list"
  d_sat_state :: Result

definition SolvingContext_new :: "Options \<Rightarrow> SolvingContext" where
  "SolvingContext_new options =
     \<lparr> d_env = Env_new options, d_backtrack_mgr = 0, d_assertions = [],
       d_sat_state = UNKNOWN \<rparr>"

definition SolvingContext_options :: "SolvingContext \<Rightarrow> Options" where
  "SolvingContext_options ctx = d_options (d_env ctx)"

definition SolvingContext_push :: "SolvingContext \<Rightarrow> SolvingContext" where
  "SolvingContext_push ctx =
     ctx\<lparr> d_backtrack_mgr := BacktrackManager_push (d_backtrack_mgr ctx) \<rparr>"

definition SolvingContext_pop :: "SolvingContext \<Rightarrow> error + SolvingContext" where
  "SolvingContext_pop ctx =
     (case BacktrackManager_pop (d_backtrack_mgr ctx) of
        Inl e \<Rightarrow> Inl e
      | Inr n \<Rightarrow>
          Inr (ctx\<lparr> d_backtrack_mgr := n,
                    d_assertions := filter (\<lambda>(l, t). l \<le> n) (d_assertions ctx) \<rparr>))"

definition SolvingContext_assert_formula :: "SolvingContext \<Rightarrow> Node \<Rightarrow> error + SolvingContext" where
  "SolvingContext_assert_formula ctx formula =
     (if \<not> is_bool (ntype formula) then Inl AssertionFailure
      else Inr (ctx\<lparr> d_assertions := d_assertions ctx @ [(d_backtrack_mgr ctx, formula)] \<rparr>))"

text \<open>
  The API object \<^verbatim>\<open>bitwuzla::Bitwuzla\<close> (\<^verbatim>\<open>api/cpp/bitwuzla.cpp\<close>). Its methods
  \<^verbatim>\<open>push\<close> and \<^verbatim>\<open>pop\<close> call the context once per level, and \<^verbatim>\<open>simplify\<close>
  returns a constant.
\<close>

record Bitwuzla =
  d_ctx :: SolvingContext

definition Bitwuzla_new :: "Options \<Rightarrow> Bitwuzla" where
  "Bitwuzla_new options = \<lparr> d_ctx = SolvingContext_new options \<rparr>"

primrec Bitwuzla_push :: "Bitwuzla \<Rightarrow> nat \<Rightarrow> error + Bitwuzla" where
  "Bitwuzla_push b 0 = Inr b"
| "Bitwuzla_push b (Suc nlevels) =
     Bitwuzla_push (b\<lparr> d_ctx := SolvingContext_push (d_ctx b) \<rparr>) nlevels"

primrec Bitwuzla_pop :: "Bitwuzla \<Rightarrow> nat \<Rightarrow> error + Bitwuzla" where
  "Bitwuzla_pop b 0 = Inr b"
| "Bitwuzla_pop b (Suc nlevels) =
     (case SolvingContext_pop (d_ctx b) of
        Inl e \<Rightarrow> Inl e
      | Inr ctx \<Rightarrow> Bitwuzla_pop (b\<lparr> d_ctx := ctx \<rparr>) nlevels)"

definition Bitwuzla_assert_formula :: "Bitwuzla \<Rightarrow> Node \<Rightarrow> error + Bitwuzla" where
  "Bitwuzla_assert_formula b t =
     (case SolvingContext_assert_formula (d_ctx b) t of
        Inl e \<Rightarrow> Inl e
      | Inr ctx \<Rightarrow> Inr (b\<lparr> d_ctx := ctx \<rparr>))"

definition Bitwuzla_simplify :: "Bitwuzla \<Rightarrow> Result" where
  "Bitwuzla_simplify b = UNKNOWN"

text \<open>
  The store of the API: an \<^verbatim>\<open>Options\<close> handle shares its internal options object
  (\<^verbatim>\<open>std::shared_ptr\<close>), so the object lives at an address. The constructor
  \<^verbatim>\<open>Options()\<close> builds the object there: every member registers itself in the
  table of the object under construction. What the constructor gives each option as
  its value is not among the sources and is the parameter \<open>dflt\<close>.
\<close>

record World =
  options_heap :: "addr \<Rightarrow> Options"
  bitwuzla_heap :: "addr \<Rightarrow> Bitwuzla option"


text \<open>
  Modelled from the spec: the bodies of the accessors by identifier,
  \<^verbatim>\<open>Options::set<T>(opt, value)\<close> and \<^verbatim>\<open>Options::get<T>(opt)\<close> (for the API
  \<^verbatim>\<open>set_option_numeric\<close>, \<^verbatim>\<open>get_option_bool\<close> and their like), are not among the
  sources. The class declares them as the access to an option through its identifier
  and registers every option under its identifier in the table for that access, so
  they go through the table entry of the option: \<open>Options_set_id\<close> writes the member
  object the entry points to and \<open>Options_get_id\<close> reads it.
\<close>

definition Options_set_id :: "World \<Rightarrow> Options \<Rightarrow> Option \<Rightarrow> OptionValue \<Rightarrow> World" where
  "Options_set_id w options opt v =
     (let a = o_table options opt;
          target = options_heap w a
      in w\<lparr> options_heap :=
              (options_heap w)(a := target\<lparr> o_members := (o_members target)(opt := v) \<rparr>) \<rparr>)"

definition Options_get_id :: "World \<Rightarrow> Options \<Rightarrow> Option \<Rightarrow> OptionValue" where
  "Options_get_id w options opt = o_members (options_heap w (o_table options opt)) opt"

text \<open>
  \<^verbatim>\<open>Options::set\<close> of the API sets the option by its identifier on the object of
  the handle. The constructor \<^verbatim>\<open>Bitwuzla(const Options&)\<close> passes the pointee to the
  solving context, whose environment copies it: the instance holds its own members,
  and a table that still points to the members of the object of the handle.
\<close>

definition Options_set :: "World \<Rightarrow> addr \<Rightarrow> Option \<Rightarrow> OptionValue \<Rightarrow> World" where
  "Options_set w h opt v = Options_set_id w (options_heap w h) opt v"

definition Bitwuzla_construct :: "World \<Rightarrow> addr \<Rightarrow> addr \<Rightarrow> World" where
  "Bitwuzla_construct w b h =
     w\<lparr> bitwuzla_heap := (bitwuzla_heap w)(b \<mapsto> Bitwuzla_new (options_heap w h)) \<rparr>"

definition instance_options :: "World \<Rightarrow> addr \<Rightarrow> Options option" where
  "instance_options w b =
     map_option (\<lambda>i. SolvingContext_options (d_ctx i)) (bitwuzla_heap w b)"

fun mutate :: "World \<Rightarrow> (addr \<times> Option \<times> OptionValue) list \<Rightarrow> World" where
  "mutate w [] = w"
| "mutate w ((h, opt, v) # ms) = mutate (Options_set w h opt v) ms"

text \<open>
  The two ways to read an option of the instance at address \<open>b\<close>: through the
  member accessor of its options (\<^verbatim>\<open>options().incremental()\<close>), and by identifier
  (\<^verbatim>\<open>options().get<bool>(Option::INCREMENTAL)\<close>).
\<close>

definition read_member :: "World \<Rightarrow> addr \<Rightarrow> Option \<Rightarrow> OptionValue option" where
  "read_member w b opt = map_option (\<lambda>options. o_members options opt) (instance_options w b)"

definition read_by_id :: "World \<Rightarrow> addr \<Rightarrow> Option \<Rightarrow> OptionValue option" where
  "read_by_id w b opt = map_option (\<lambda>options. Options_get_id w options opt) (instance_options w b)"




text \<open>
  Sample inputs: an options object at address 0 with every Boolean option off, and the
  constant true.
\<close>

definition all_off :: Options where
  "all_off = \<lparr> o_members = (\<lambda>opt. BoolV False), o_table = (\<lambda>opt. 0) \<rparr>"

definition mk_true :: Node where
  "mk_true = Node VALUE [] BoolT 1"

section \<open>The preprocessor\<close>

text \<open>
  \<^verbatim>\<open>preprocess/preprocessor.cpp\<close>. The nine pass objects of the preprocessor, in the
  order of their fields.
\<close>

datatype Pass =
    Rewrite | ContrAnds | ElimLambda | ElimUninterpreted | EmbeddedConstraints
  | VariableSubstitution | FlattenAnd | SkeletonPreproc | Normalize

text \<open>
  Modelled from the spec: the assertion vector and the assertion view
  (\<^verbatim>\<open>preprocess/assertion_vector.h\<close>, \<^verbatim>\<open>backtrack/assertion_stack.h\<close>) are not among
  the sources. A view is the ordered sequence of (level, term) pairs with a cursor; an
  assertion vector is the run of assertions of one level that starts at the cursor,
  with a counter of modifications: \<^verbatim>\<open>reset_modified\<close> clears it, \<^verbatim>\<open>num_modified\<close>
  reads it and \<^verbatim>\<open>modified\<close> says whether it is positive.
\<close>

record AssertionVector =
  d_level :: nat
  d_terms :: "Node list"
  d_modified :: nat

definition reset_modified :: "AssertionVector \<Rightarrow> AssertionVector" where
  "reset_modified av = av\<lparr> d_modified := 0 \<rparr>"

definition modified :: "AssertionVector \<Rightarrow> bool" where
  "modified av = (0 < d_modified av)"

definition av_size :: "AssertionVector \<Rightarrow> nat" where
  "av_size av = length (d_terms av)"

record AssertionView =
  v_stack :: "(nat \<times> Node) list"
  v_index :: nat

definition view_empty :: "AssertionView \<Rightarrow> bool" where
  "view_empty v = (length (v_stack v) \<le> v_index v)"

definition view_level :: "AssertionView \<Rightarrow> nat \<Rightarrow> nat" where
  "view_level v i = fst (v_stack v ! i)"

definition AssertionVector_new :: "AssertionView \<Rightarrow> AssertionVector" where
  "AssertionVector_new v =
     (let level = view_level v (v_index v)
      in \<lparr> d_level = level,
           d_terms = map snd (takeWhile (\<lambda>(l, t). l = level) (drop (v_index v) (v_stack v))),
           d_modified = 0 \<rparr>)"

text \<open>
  The vector writes through to the view: after the passes, the run of the level holds
  the vector's terms.
\<close>

definition view_store :: "AssertionView \<Rightarrow> nat \<Rightarrow> AssertionVector \<Rightarrow> AssertionView" where
  "view_store v old_size av =
     v\<lparr> v_stack := take (v_index v) (v_stack v)
                     @ map (Pair (d_level av)) (d_terms av)
                     @ drop (v_index v + old_size) (v_stack v) \<rparr>"

definition set_index :: "AssertionView \<Rightarrow> nat \<Rightarrow> AssertionView" where
  "set_index v i = v\<lparr> v_index := i \<rparr>"

text \<open>
  The passes themselves (\<^verbatim>\<open>PreprocessingPass::apply\<close>) are a parameter: applied to
  the state of the pass objects and the assertions of the level, a pass yields the new
  state, the new assertions and the number of modifications it made through the vector.
  The preprocessor keeps the state of its passes, its own backtrack levels and the
  iteration statistic; \<open>d_log\<close> is a trace of what the loop did, for stating what was
  applied and when.
\<close>

type_synonym 'p PassApply = "Pass \<Rightarrow> 'p \<Rightarrow> Node list \<Rightarrow> 'p \<times> Node list \<times> nat"

datatype Event = ResetModified nat | ApplyPass nat Pass

record 'p Preprocessor =
  d_passes :: 'p
  d_pp_backtrack_mgr :: nat
  d_num_iterations :: nat
  d_log :: "Event list"

definition run_pass ::
  "'p PassApply \<Rightarrow> Pass \<Rightarrow> 'p Preprocessor \<times> AssertionVector \<Rightarrow> 'p Preprocessor \<times> AssertionVector" where
  "run_pass P p st =
     (let (pp, av) = st; (ps, ts, k) = P p (d_passes pp) (d_terms av)
      in (pp\<lparr> d_passes := ps, d_log := d_log pp @ [ApplyPass (d_level av) p] \<rparr>,
          av\<lparr> d_terms := ts, d_modified := d_modified av + k \<rparr>))"

definition run_if ::
  "bool \<Rightarrow> 'p PassApply \<Rightarrow> Pass \<Rightarrow> 'p Preprocessor \<times> AssertionVector \<Rightarrow> 'p Preprocessor \<times> AssertionVector" where
  "run_if c P p st = (if c then run_pass P p st else st)"

definition begin_iteration ::
  "'p Preprocessor \<times> AssertionVector \<Rightarrow> 'p Preprocessor \<times> AssertionVector" where
  "begin_iteration st =
     (let (pp, av) = st
      in (pp\<lparr> d_num_iterations := Suc (d_num_iterations pp),
               d_log := d_log pp @ [ResetModified (d_level av)] \<rparr>,
          reset_modified av))"

text \<open>One pass through the body of the \<^verbatim>\<open>do ... while\<close> loop of \<^verbatim>\<open>Preprocessor::apply\<close>.\<close>

definition iteration ::
  "'p PassApply \<Rightarrow> Options \<Rightarrow> bool \<Rightarrow> 'p Preprocessor \<times> AssertionVector
     \<Rightarrow> 'p Preprocessor \<times> AssertionVector" where
  "iteration P options skel_done st0 =
     (let st1 = begin_iteration st0;
          st2 = run_pass P Rewrite st1;
          st3 = run_if (pp_flatten_and options) P FlattenAnd st2;
          st4 = run_if (pp_variable_subst options) P VariableSubstitution st3;
          st5 = run_if (pp_skeleton_preproc options \<and> \<not> skel_done) P SkeletonPreproc st4;
          st6 = run_if (pp_embedded_constr options) P EmbeddedConstraints st5;
          st7 = run_if (pp_contr_ands options) P ContrAnds st6;
          st8 = run_pass P ElimLambda st7;
          st9 = run_pass P ElimUninterpreted st8
      in run_if (pp_normalize options) P Normalize st9)"

definition skel_after :: "Options \<Rightarrow> bool \<Rightarrow> bool" where
  "skel_after options skel_done =
     (if pp_skeleton_preproc options \<and> \<not> skel_done then True else skel_done)"

text \<open>
  The loop may run forever (a pass may modify an assertion in every iteration), so it
  takes fuel: one unit per iteration, \<open>None\<close> when the fuel runs out.
\<close>

fun apply_loop ::
  "nat \<Rightarrow> 'p PassApply \<Rightarrow> Options \<Rightarrow> bool \<Rightarrow> 'p Preprocessor \<times> AssertionVector
     \<Rightarrow> ('p Preprocessor \<times> AssertionVector) option" where
  "apply_loop 0 P options skel_done st = None"
| "apply_loop (Suc fuel) P options skel_done st =
     (let st' = iteration P options skel_done st
      in if modified (snd st') then apply_loop fuel P options (skel_after options skel_done) st'
         else Some st')"

definition Preprocessor_apply ::
  "nat \<Rightarrow> 'p PassApply \<Rightarrow> Env \<Rightarrow> 'p Preprocessor \<times> AssertionVector
     \<Rightarrow> ('p Preprocessor \<times> AssertionVector) option" where
  "Preprocessor_apply fuel P env st =
     (if av_size (snd st) = 0 then Some st
      else apply_loop fuel P (d_options env) False st)"

definition sync_scope :: "'p Preprocessor \<Rightarrow> nat \<Rightarrow> 'p Preprocessor" where
  "sync_scope pp level = pp\<lparr> d_pp_backtrack_mgr := max (d_pp_backtrack_mgr pp) level \<rparr>"

text \<open>
  \<^verbatim>\<open>Preprocessor::preprocess\<close>: the assertions are processed level by level; the
  result is \<^verbatim>\<open>Result::UNKNOWN\<close> on both of its return paths.
\<close>

fun preprocess_levels ::
  "nat \<Rightarrow> 'p PassApply \<Rightarrow> Env \<Rightarrow> 'p Preprocessor \<Rightarrow> AssertionView
     \<Rightarrow> ('p Preprocessor \<times> AssertionView) option" where
  "preprocess_levels 0 P env pp v = (if view_empty v then Some (pp, v) else None)"
| "preprocess_levels (Suc fuel) P env pp v =
     (if view_empty v then Some (pp, v)
      else
        (let level = view_level v (v_index v);
             pp1 = sync_scope pp level;
             assertions = AssertionVector_new v
         in case Preprocessor_apply (Suc fuel) P env (pp1, assertions) of
              None \<Rightarrow> None
            | Some (pp2, av) \<Rightarrow>
                preprocess_levels fuel P env pp2
                  (set_index (view_store v (av_size assertions) av) (v_index v + av_size av))))"

definition Preprocessor_preprocess ::
  "nat \<Rightarrow> 'p PassApply \<Rightarrow> Env \<Rightarrow> nat \<Rightarrow> 'p Preprocessor \<Rightarrow> AssertionView
     \<Rightarrow> (Result \<times> 'p Preprocessor \<times> AssertionView) option" where
  "Preprocessor_preprocess fuel P env global_levels pp v =
     (if view_empty v then Some (UNKNOWN, pp, v)
      else
        (case preprocess_levels fuel P env pp v of
           None \<Rightarrow> None
         | Some (pp', v') \<Rightarrow> Some (UNKNOWN, sync_scope pp' global_levels, v')))"




fun after_iterations ::
  "nat \<Rightarrow> 'p PassApply \<Rightarrow> Options \<Rightarrow> bool \<Rightarrow> 'p Preprocessor \<times> AssertionVector
     \<Rightarrow> 'p Preprocessor \<times> AssertionVector" where
  "after_iterations 0 P options skel_done st = iteration P options skel_done st"
| "after_iterations (Suc k) P options skel_done st =
     after_iterations k P options (skel_after options skel_done) (iteration P options skel_done st)"



definition sample_passes :: "unit PassApply" where
  "sample_passes p ps ts =
     (if p = Rewrite then (ps, map (\<lambda>t. mk_true) ts, length (filter (\<lambda>t. t \<noteq> mk_true) ts))
      else (ps, ts, 0))"

definition always_true :: Terminator where
  "always_true = Terminator (\<lambda>k. True)"

definition bool_const :: Node where
  "bool_const = Node CONSTANT [] BoolT 7"

definition pp0 :: "unit Preprocessor" where
  "pp0 = \<lparr> d_passes = (), d_pp_backtrack_mgr = 0, d_num_iterations = 0, d_log = [] \<rparr>"

definition view0 :: AssertionView where
  "view0 = \<lparr> v_stack = [(0, bool_const)], v_index = 0 \<rparr>"

definition terminated_env :: Env where
  "terminated_env = \<lparr> d_options = all_off, d_terminator = Some always_true \<rparr>"



definition b_true :: Bitwuzla where
  "b_true = \<lparr> d_ctx = (SolvingContext_new all_off)\<lparr> d_assertions := [(0, mk_true)] \<rparr> \<rparr>"

section \<open>The check for free variables\<close>

text \<open>
  \<^verbatim>\<open>SolvingContext::check_no_free_variables\<close>, which \<^verbatim>\<open>solve()\<close> runs first in a
  debug build. The traversal keeps a stack \<open>visit\<close> (its top is the head of the list:
  the children of a node are pushed in order, so the last child is visited first), a
  map \<open>cache\<close> from visited nodes to a flag, and a map \<open>free_vars\<close> from nodes to the
  set of their free variables. \<open>cache\<close> is declared before the loop over the
  assertions and lives through all of them; \<open>free_vars\<close> is declared inside the loop
  and starts empty for every assertion. The traversal takes fuel, one unit per
  iteration of the \<^verbatim>\<open>do ... while\<close> loop.
\<close>

definition child_vars :: "(Node \<rightharpoonup> Node set) \<Rightarrow> Node list \<Rightarrow> Node set \<Rightarrow> Node set" where
  "child_vars free_vars cs vars =
     fold (\<lambda>c acc. case free_vars c of None \<Rightarrow> acc | Some s \<Rightarrow> acc \<union> s) cs vars"

definition is_binder :: "Kind \<Rightarrow> bool" where
  "is_binder k = (k = FORALL \<or> k = EXISTS \<or> k = LAMBDA)"

definition visit_node :: "(Node \<rightharpoonup> Node set) \<Rightarrow> Node \<Rightarrow> (Node \<rightharpoonup> Node set)" where
  "visit_node free_vars cur =
     (let fv1 =
            (if kind cur = VARIABLE then free_vars(cur \<mapsto> {cur})
             else free_vars(cur \<mapsto>
                    child_vars free_vars (children cur)
                      (case free_vars cur of None \<Rightarrow> {} | Some s \<Rightarrow> s)))
      in if is_binder (kind cur)
         then (case children cur of
                 [] \<Rightarrow> fv1
               | c0 # cs \<Rightarrow> fv1(cur \<mapsto> (case fv1 cur of None \<Rightarrow> {} | Some s \<Rightarrow> s) - {c0}))
         else fv1)"

fun traverse ::
  "nat \<Rightarrow> Node list \<Rightarrow> (Node \<rightharpoonup> bool) \<Rightarrow> (Node \<rightharpoonup> Node set)
     \<Rightarrow> ((Node \<rightharpoonup> bool) \<times> (Node \<rightharpoonup> Node set)) option" where
  "traverse fuel [] cache free_vars = Some (cache, free_vars)"
| "traverse 0 (cur # visit) cache free_vars = None"
| "traverse (Suc fuel) (cur # visit) cache free_vars =
     (case cache cur of
        None \<Rightarrow>
          traverse fuel (rev (children cur) @ cur # visit) (cache(cur \<mapsto> False)) free_vars
      | Some False \<Rightarrow>
          traverse fuel visit (cache(cur \<mapsto> True)) (visit_node free_vars cur)
      | Some True \<Rightarrow> traverse fuel visit cache free_vars)"

fun check_assertions :: "nat \<Rightarrow> Node list \<Rightarrow> (Node \<rightharpoonup> bool) \<Rightarrow> (error + unit) option" where
  "check_assertions fuel [] cache = Some (Inr ())"
| "check_assertions fuel (assertion # rest) cache =
     (case traverse fuel [assertion] cache Map.empty of
        None \<Rightarrow> None
      | Some (cache', free_vars) \<Rightarrow>
          (case free_vars assertion of
             None \<Rightarrow> check_assertions fuel rest cache'
           | Some vars \<Rightarrow>
               if vars \<noteq> {} then Some (Inl (Abort vars))
               else check_assertions fuel rest cache'))"

definition check_no_free_variables :: "nat \<Rightarrow> SolvingContext \<Rightarrow> (error + unit) option" where
  "check_no_free_variables fuel ctx =
     check_assertions fuel (map snd (d_assertions ctx)) Map.empty"

text \<open>
  The free variables of a term, for stating what the check is for: the variables that
  occur in it outside the scope of a binder for them. A binder binds its first child.
\<close>

fun free_variables :: "Node \<Rightarrow> Node set" where
  "free_variables (Node k cs ty i) =
     (if k = VARIABLE then {Node k cs ty i}
      else (\<Union>c\<in>set cs. free_variables c)
             - (if is_binder k then (case cs of [] \<Rightarrow> {} | c0 # cs' \<Rightarrow> {c0}) else {}))"

text \<open>
  Sample terms: a Boolean variable \<open>x\<close>, its negation, and the closed formula that
  quantifies the negation over \<open>x\<close>.
\<close>

definition var_x :: Node where
  "var_x = Node VARIABLE [] BoolT 3"

definition not_x :: Node where
  "not_x = Node NOT [var_x] BoolT 0"

definition forall_x_not_x :: Node where
  "forall_x_not_x = Node FORALL [var_x, not_x] BoolT 0"

definition ctx_closed_then_open :: SolvingContext where
  "ctx_closed_then_open =
     (SolvingContext_new all_off)\<lparr> d_assertions := [(0, forall_x_not_x), (0, not_x)] \<rparr>"

definition ctx_open_only :: SolvingContext where
  "ctx_open_only = (SolvingContext_new all_off)\<lparr> d_assertions := [(0, not_x)] \<rparr>"

section \<open>The function solver\<close>

text \<open>
  \<^verbatim>\<open>solver/fun/fun_solver.cpp\<close>. The collaborators that the sources do not hold are
  parameters: \<^verbatim>\<open>SolverState::value\<close>, which gives the current model value of a term
  and may register further applications while it computes it (\<open>m_value\<close> is the value,
  \<open>m_register\<close> the applications it appends to the registered ones), and
  \<^verbatim>\<open>utils::mk_nary\<close>. \<^verbatim>\<open>SolverState::lemma\<close> is modelled as appending the lemma to
  the list \<open>d_lemmas\<close>.
\<close>

record Collab =
  m_value :: "Node \<Rightarrow> Node"
  m_register :: "Node \<Rightarrow> Node list \<Rightarrow> Node list"
  mk_nary :: "Kind \<Rightarrow> Node list \<Rightarrow> Node"

text \<open>
  \<^verbatim>\<open>FunSolver::Apply\<close>: an application with the model values of its arguments and
  its own model value cached. Its equality and its hash read \<open>d_values\<close> only.
\<close>

record Apply =
  d_apply :: Node
  d_values :: "Node list"
  d_value :: Node

text \<open>
  \<open>d_fun_models\<close> maps a function symbol to its set of \<^verbatim>\<open>Apply\<close> objects; the set is
  kept in insertion order, and a symbol without an entry has the empty list (an entry
  gets its first element as soon as \<^verbatim>\<open>check\<close> creates it).
\<close>

record FunSolver =
  d_applies :: "Node list"
  d_fun_models :: "Node \<Rightarrow> Apply list"
  d_lemmas :: "Node list"

definition state_value :: "Collab \<Rightarrow> Node \<Rightarrow> Node list \<Rightarrow> Node \<times> Node list" where
  "state_value C t applies = (m_value C t, applies @ m_register C t applies)"

fun arg_values :: "Collab \<Rightarrow> Node list \<Rightarrow> Node list \<Rightarrow> Node list \<times> Node list" where
  "arg_values C [] applies = ([], applies)"
| "arg_values C (a # as) applies =
     (let (v, applies1) = state_value C a applies;
          (vs, applies2) = arg_values C as applies1
      in (v # vs, applies2))"

definition Apply_new :: "Collab \<Rightarrow> Node \<Rightarrow> Node list \<Rightarrow> Apply \<times> Node list" where
  "Apply_new C apply applies =
     (let (vs, applies1) = arg_values C (tl (children apply)) applies;
          (v, applies2) = state_value C apply applies1
      in (\<lparr> d_apply = apply, d_values = vs, d_value = v \<rparr>, applies2))"

definition mk_eq :: "Node \<Rightarrow> Node \<Rightarrow> Node" where
  "mk_eq a b = Node EQUAL [a, b] BoolT 0"

definition add_function_congruence_lemma :: "Collab \<Rightarrow> Node \<Rightarrow> Node \<Rightarrow> error + Node" where
  "add_function_congruence_lemma C a b =
     (if length (children a) \<noteq> length (children b) then Inl AssertionFailure
      else if kind a \<noteq> APPLY then Inl AssertionFailure
      else if kind b \<noteq> APPLY then Inl AssertionFailure
      else if a = b then Inl AssertionFailure
      else
        (let premise = map (\<lambda>(x, y). mk_eq x y) (zip (tl (children a)) (tl (children b)));
             conclusion = mk_eq a b
         in Inr (Node IMPLIES [mk_nary C AND premise, conclusion] BoolT 0)))"

text \<open>
  The body of the loop of \<^verbatim>\<open>FunSolver::check\<close> at index \<open>i\<close>. Reading the function
  symbol \<^verbatim>\<open>apply[0]\<close> of a node without children is out of range.
\<close>

definition check_step :: "Collab \<Rightarrow> nat \<Rightarrow> FunSolver \<Rightarrow> error + FunSolver" where
  "check_step C i s =
     (let apply = d_applies s ! i
      in case children apply of
           [] \<Rightarrow> Inl AssertionFailure
         | fn # args \<Rightarrow>
             (let (app, applies) = Apply_new C apply (d_applies s);
                  s1 = s\<lparr> d_applies := applies \<rparr>
              in case find (\<lambda>it. d_values it = d_values app) (d_fun_models s fn) of
                   None \<Rightarrow>
                     Inr (s1\<lparr> d_fun_models := (d_fun_models s)(fn := d_fun_models s fn @ [app]) \<rparr>)
                 | Some it \<Rightarrow>
                     if d_value it \<noteq> d_value app
                     then (case add_function_congruence_lemma C apply (d_apply it) of
                             Inl e \<Rightarrow> Inl e
                           | Inr lem \<Rightarrow> Inr (s1\<lparr> d_lemmas := d_lemmas s @ [lem] \<rparr>))
                     else Inr s1))"

text \<open>
  The loop reads the size of \<open>d_applies\<close> anew in every iteration, so it also visits
  the applications registered while it runs, and it need not end: it takes fuel, one
  unit per iteration. \<^verbatim>\<open>check\<close> clears the function models first; its return value is
  always true and is left out.
\<close>

fun check_loop :: "nat \<Rightarrow> Collab \<Rightarrow> nat \<Rightarrow> FunSolver \<Rightarrow> (error + FunSolver) option" where
  "check_loop 0 C i s = (if i < length (d_applies s) then None else Some (Inr s))"
| "check_loop (Suc fuel) C i s =
     (if i < length (d_applies s)
      then (case check_step C i s of
              Inl e \<Rightarrow> Some (Inl e)
            | Inr s' \<Rightarrow> check_loop fuel C (Suc i) s')
      else Some (Inr s))"

definition FunSolver_check :: "nat \<Rightarrow> Collab \<Rightarrow> FunSolver \<Rightarrow> (error + FunSolver) option" where
  "FunSolver_check fuel C s = check_loop fuel C 0 (s\<lparr> d_fun_models := (\<lambda>f. []) \<rparr>)"

text \<open>
  What \<^verbatim>\<open>check\<close> is to emit, for stating its properties. The key of an application is
  its function symbol with the model values of its arguments; the representative of the
  application at index \<open>j\<close> is the first earlier application with the same key; the
  congruence lemma of \<open>a\<close> against \<open>b\<close> is \<open>(a\<^sub>1 = b\<^sub>1 \<and> \<dots> \<and> a\<^sub>n = b\<^sub>n) \<Rightarrow> a = b\<close>.
\<close>

definition app_key :: "Collab \<Rightarrow> Node \<Rightarrow> Node \<times> Node list" where
  "app_key C a = (hd (children a), map (m_value C) (tl (children a)))"

definition representative :: "Collab \<Rightarrow> Node list \<Rightarrow> nat \<Rightarrow> Node option" where
  "representative C apps j = find (\<lambda>b. app_key C b = app_key C (apps ! j)) (take j apps)"

definition lemma_for :: "Collab \<Rightarrow> Node \<Rightarrow> Node \<Rightarrow> Node" where
  "lemma_for C a b =
     Node IMPLIES
       [mk_nary C AND (map (\<lambda>(x, y). mk_eq x y) (zip (tl (children a)) (tl (children b)))),
        mk_eq a b] BoolT 0"

definition lemma_at :: "Collab \<Rightarrow> Node list \<Rightarrow> nat \<Rightarrow> Node list" where
  "lemma_at C apps j =
     (case representative C apps j of
        None \<Rightarrow> []
      | Some b \<Rightarrow> if m_value C b \<noteq> m_value C (apps ! j) then [lemma_for C (apps ! j) b] else [])"

definition expected_lemmas :: "Collab \<Rightarrow> Node list \<Rightarrow> Node list" where
  "expected_lemmas C apps = concat (map (lemma_at C apps) [0..<length apps])"

definition mk_Apply :: "Collab \<Rightarrow> Node \<Rightarrow> Apply" where
  "mk_Apply C b =
     \<lparr> d_apply = b, d_values = map (m_value C) (tl (children b)), d_value = m_value C b \<rparr>"

definition fm_inv :: "Collab \<Rightarrow> (Node \<Rightarrow> Apply list) \<Rightarrow> Node list \<Rightarrow> bool" where
  "fm_inv C fm xs =
     (\<forall>f vs. find (\<lambda>it. d_values it = vs) (fm f)
              = map_option (mk_Apply C) (find (\<lambda>b. app_key C b = (f, vs)) xs))"

text \<open>
  Sample inputs: a way to build an n-ary conjunction, three applications of one unary
  function symbol to three constants, and a model in which the three arguments have the
  same value while the applications have the values 1, 1 and 2. In the growing model
  the third application is registered when the value of the second is computed.
\<close>

fun mk_nary_sample :: "Kind \<Rightarrow> Node list \<Rightarrow> Node" where
  "mk_nary_sample k [] = mk_true"
| "mk_nary_sample k (t # ts) = foldl (\<lambda>acc x. Node k [acc, x] BoolT 0) t ts"

definition fsym :: Node where
  "fsym = Node CONSTANT [] (FunT [BvT 4, BvT 4]) 10"

definition app_a :: Node where
  "app_a = Node APPLY [fsym, Node CONSTANT [] (BvT 4) 11] (BvT 4) 0"

definition app_b :: Node where
  "app_b = Node APPLY [fsym, Node CONSTANT [] (BvT 4) 12] (BvT 4) 0"

definition app_c :: Node where
  "app_c = Node APPLY [fsym, Node CONSTANT [] (BvT 4) 13] (BvT 4) 0"

definition bv_val :: "nat \<Rightarrow> Node" where
  "bv_val n = Node VALUE [] (BvT 4) n"

definition sample_value :: "Node \<Rightarrow> Node" where
  "sample_value t =
     (if t = app_a \<or> t = app_b then bv_val 1 else if t = app_c then bv_val 2 else bv_val 0)"

definition static_model :: Collab where
  "static_model = \<lparr> m_value = sample_value, m_register = (\<lambda>t aps. []), mk_nary = mk_nary_sample \<rparr>"

definition growing_model :: Collab where
  "growing_model =
     \<lparr> m_value = sample_value,
       m_register = (\<lambda>t aps. if t = app_b \<and> app_c \<notin> set aps then [app_c] else []),
       mk_nary = mk_nary_sample \<rparr>"

definition solver_abc :: FunSolver where
  "solver_abc = \<lparr> d_applies = [app_a, app_b, app_c], d_fun_models = (\<lambda>f. []), d_lemmas = [] \<rparr>"

definition solver_ab :: FunSolver where
  "solver_ab = \<lparr> d_applies = [app_a, app_b], d_fun_models = (\<lambda>f. []), d_lemmas = [] \<rparr>"

definition solver_abc_checked :: FunSolver where
  "solver_abc_checked =
     \<lparr> d_applies = [app_a, app_b, app_c],
       d_fun_models = (\<lambda>f. [])(fsym := [mk_Apply static_model app_a]),
       d_lemmas = [lemma_for static_model app_c app_a] \<rparr>"

section \<open>Model values\<close>










section \<open>Kissat: theorems\<close>

lemma Kissat_call_assumption:
  "assumption_call c \<Longrightarrow> Kissat_call L s c = Inl AssertionFailure"
  by (cases c)
    (simp_all add: assumption_call_def Kissat_call_def Kissat_assume_def Kissat_failed_def
      Kissat_fixed_def)

lemma Kissat_call_library:
  "\<not> assumption_call c
   \<Longrightarrow> Kissat_call L s c
       = Inr (case c of
                Call_add lit \<Rightarrow> (Returned, kissat_add L s lit)
              | Call_value lit \<Rightarrow> (Returned_int (sgn (kissat_value L s lit)), s)
              | Call_solve \<Rightarrow>
                  (Returned_result (result_of_code (fst (kissat_solve L s))),
                   snd (kissat_solve L s))
              | Call_set_terminate cb \<Rightarrow> (Returned, kissat_set_terminate L s cb)
              | Call_get_version \<Rightarrow> (Returned_string (kissat_version L), s)
              | _ \<Rightarrow> (Returned, s))"
  by (cases c)
    (auto simp: assumption_call_def Kissat_call_def Kissat_add_def Kissat_value_def
      Kissat_solve_def Kissat_set_terminate_def Kissat_get_version_def result_of_code_def
      Let_def sgn_if split: prod.splits)

lemma Kissat_run_library:
  "\<forall>c\<in>set calls. \<not> assumption_call c
   \<Longrightarrow> Kissat_run L s calls = Inr (library_run L s calls)"
proof (induction calls arbitrary: s)
  case Nil
  show ?case by simp
next
  case (Cons c cs)
  from Cons.prems have c: "\<not> assumption_call c" and cs: "\<forall>c\<in>set cs. \<not> assumption_call c"
    by simp_all
  show ?case
    by (simp add: Kissat_call_library [OF c] Cons.IH [OF cs] Let_def
        split: prod.splits SatCall.splits)
qed

lemma Kissat_run_assumption:
  "\<exists>c\<in>set calls. assumption_call c \<Longrightarrow> Kissat_run L s calls = Inl AssertionFailure"
proof (induction calls arbitrary: s)
  case Nil
  then show ?case by simp
next
  case (Cons c cs)
  show ?case
  proof (cases "assumption_call c")
    case True
    then show ?thesis by (simp add: Kissat_call_assumption)
  next
    case False
    with Cons.prems have "\<exists>c\<in>set cs. assumption_call c" by simp
    then have "\<And>s'. Kissat_run L s' cs = Inl AssertionFailure" by (rule Cons.IH)
    then show ?thesis
      by (simp add: Kissat_call_library [OF False] split: prod.splits SatCall.splits)
  qed
qed

text \<open>
  C10. The Kissat backend implements \<^verbatim>\<open>add\<close>, \<^verbatim>\<open>solve\<close>, \<^verbatim>\<open>value\<close>,
  \<^verbatim>\<open>set_terminate\<close> and \<^verbatim>\<open>get_version\<close>: each returns what the library gives,
  \<^verbatim>\<open>value\<close> as the sign of the library's value and \<^verbatim>\<open>solve\<close> as \<^verbatim>\<open>SAT\<close> for 10,
  \<^verbatim>\<open>UNSAT\<close> for 20 and \<^verbatim>\<open>UNKNOWN\<close> for any other code, so a sequence of these
  calls runs to its end with the answers of the library. For every literal,
  \<^verbatim>\<open>assume\<close>, \<^verbatim>\<open>failed\<close> and \<^verbatim>\<open>fixed\<close> end in a failed assertion, so a sequence
  of calls that holds one of them, which every solving under assumptions does, ends in
  the failed assertion, on the backend and so whenever the option \<^verbatim>\<open>sat_solver\<close>
  selects \<^verbatim>\<open>kissat\<close>.
\<close>

theorem kissat_backend_interface:
  "Kissat_add L s lit = Inr (kissat_add L s lit)
   \<and> Kissat_value L s lit = Inr (sgn (kissat_value L s lit))
   \<and> Kissat_solve L s
       = Inr (if fst (kissat_solve L s) = 10 then SAT
              else if fst (kissat_solve L s) = 20 then UNSAT
              else UNKNOWN,
              snd (kissat_solve L s))
   \<and> Kissat_set_terminate L s cb = Inr (kissat_set_terminate L s cb)
   \<and> Kissat_get_version L = Inr (kissat_version L)
   \<and> Kissat_assume L s lit = Inl AssertionFailure
   \<and> Kissat_failed L s lit = Inl AssertionFailure
   \<and> Kissat_fixed L s lit = Inl AssertionFailure
   \<and> ((\<forall>c\<in>set calls. \<not> assumption_call c)
        \<longrightarrow> Kissat_run L s calls = Inr (library_run L s calls))
   \<and> ((\<exists>c\<in>set calls. assumption_call c)
        \<longrightarrow> Kissat_run L s calls = Inl AssertionFailure
            \<and> backend_run others L KISSAT s calls = Inl AssertionFailure)"
proof -
  have "Kissat_value L s lit = Inr (sgn (kissat_value L s lit))"
    by (simp add: Kissat_value_def Let_def sgn_if)
  moreover have "Kissat_solve L s
       = Inr (if fst (kissat_solve L s) = 10 then SAT
              else if fst (kissat_solve L s) = 20 then UNSAT
              else UNKNOWN,
              snd (kissat_solve L s))"
    by (simp add: Kissat_solve_def Let_def split: prod.splits)
  moreover have "(\<forall>c\<in>set calls. \<not> assumption_call c)
        \<longrightarrow> Kissat_run L s calls = Inr (library_run L s calls)"
    by (intro impI) (rule Kissat_run_library)
  moreover have "(\<exists>c\<in>set calls. assumption_call c)
        \<longrightarrow> Kissat_run L s calls = Inl AssertionFailure
            \<and> backend_run others L KISSAT s calls = Inl AssertionFailure"
  proof (intro impI)
    assume "\<exists>c\<in>set calls. assumption_call c"
    then have "Kissat_run L s calls = Inl AssertionFailure"
      by (rule Kissat_run_assumption)
    then show "Kissat_run L s calls = Inl AssertionFailure
        \<and> backend_run others L KISSAT s calls = Inl AssertionFailure"
      by (simp add: backend_run_def)
  qed
  ultimately show ?thesis
    by (simp add: Kissat_add_def Kissat_set_terminate_def Kissat_get_version_def
        Kissat_assume_def Kissat_failed_def Kissat_fixed_def)
qed

lemmas kissat_eval =
  Kissat_call_def Kissat_add_def Kissat_value_def Kissat_solve_def Kissat_assume_def
  Kissat_failed_def Kissat_fixed_def Kissat_set_terminate_def Kissat_get_version_def
  assumption_call_def sample_lib_def result_of_code_def backend_run_def Let_def

theorem kissat_backend_interface_witness:
  "\<not> (\<exists>c\<in>set [Call_add 1, Call_add (- 2), Call_solve, Call_value (- 2), Call_value 0].
        assumption_call c)
   \<and> Kissat_run sample_lib [] [Call_add 1, Call_add (- 2), Call_solve, Call_value (- 2), Call_value 0]
       = Inr ([Returned, Returned, Returned_result SAT, Returned_int (- 1), Returned_int 0],
              [- 2, 1])
   \<and> (\<exists>c\<in>set [Call_add 1, Call_assume (- 2), Call_solve, Call_failed (- 2)]. assumption_call c)
   \<and> Kissat_run sample_lib [] [Call_add 1, Call_assume (- 2), Call_solve, Call_failed (- 2)]
       = Inl AssertionFailure
   \<and> backend_run (\<lambda>b s calls. Inr ([], s)) sample_lib KISSAT []
         [Call_add 1, Call_assume (- 2), Call_solve, Call_failed (- 2)]
       = Inl AssertionFailure"
  using kissat_backend_interface [where L = sample_lib and s = "[]"
      and calls = "[Call_add 1, Call_add (- 2), Call_solve, Call_value (- 2), Call_value 0]"]
    kissat_backend_interface [where L = sample_lib and s = "[]"
      and others = "\<lambda>b s calls. Inr ([], s)"
      and calls = "[Call_add 1, Call_assume (- 2), Call_solve, Call_failed (- 2)]"]
  by (simp add: kissat_eval)

section \<open>Command-line front end: theorems\<close>

lemma scan_args_status: "scan_args rest args f = Inl s \<Longrightarrow> s = EXIT_SUCCESS"
  by (induction rest arbitrary: args f) (auto split: if_splits)

text \<open>
  C8, as the code has it. \<^verbatim>\<open>main\<close> ends with \<^verbatim>\<open>EXIT_SUCCESS\<close>, which is 0, for every
  run without an error: a help, copyright or version flag, or options that are accepted
  and a parse that returns the empty message, whatever the solver answered. It ends with
  \<^verbatim>\<open>EXIT_FAILURE\<close>, which is not 0, when setting the options or parsing reports an
  error. It has no other exit code.
\<close>

theorem main_exit_status:
  "(scan_args (tl argv) [] [] = Inl s \<longrightarrow> main C argv = EXIT_SUCCESS)
   \<and> (scan_args (tl argv) [] [] = Inr (args, f) \<longrightarrow> options_set C args = Inl msg
        \<longrightarrow> main C argv = EXIT_FAILURE)
   \<and> (scan_args (tl argv) [] [] = Inr (args, f) \<longrightarrow> options_set C args = Inr opts
        \<longrightarrow> main C argv = (if snd (parse C opts f) = [] then EXIT_SUCCESS else EXIT_FAILURE))
   \<and> main C argv \<in> {EXIT_SUCCESS, EXIT_FAILURE}
   \<and> EXIT_SUCCESS = 0 \<and> EXIT_FAILURE \<noteq> 0"
  by (auto simp: main_def EXIT_SUCCESS_def EXIT_FAILURE_def Let_def
      dest: scan_args_status split: sum.splits prod.splits)

lemma scan_file_only: "scan_args (tl [''bitwuzla'', ''f.smt2'']) [] [] = Inr ([], ''f.smt2'')"
  by (simp add: is_input_file_def size_t_sub_def npos_def)

lemma scan_bad_option:
  "scan_args (tl [''bitwuzla'', ''--no-such-option'', ''f.smt2'']) [] []
     = Inr ([''--no-such-option''], ''f.smt2'')"
  by (simp add: is_input_file_def size_t_sub_def npos_def)

theorem main_exit_status_witness:
  "scan_args (tl [''bitwuzla'', ''--help'']) [] [] = Inl 0
   \<and> main sat_run [''bitwuzla'', ''--help''] = 0
   \<and> options_set failing_run [''--no-such-option''] = Inl ''invalid option''
   \<and> main failing_run [''bitwuzla'', ''--no-such-option'', ''f.smt2''] = 1
   \<and> options_set sat_run [] = Inr ()
   \<and> parse sat_run () ''f.smt2'' = (SAT, [])
   \<and> main sat_run [''bitwuzla'', ''f.smt2''] = 0
   \<and> main failing_run [''bitwuzla'', ''f.smt2''] = 1"
  using main_exit_status [of "[''bitwuzla'', ''--help'']" 0 sat_run]
    main_exit_status [of "[''bitwuzla'', ''--no-such-option'', ''f.smt2'']" _ failing_run
      "[''--no-such-option'']" "''f.smt2''" "''invalid option''"]
    main_exit_status [of "[''bitwuzla'', ''f.smt2'']" _ sat_run "[]" "''f.smt2''" _ "()"]
    main_exit_status [of "[''bitwuzla'', ''f.smt2'']" _ failing_run "[]" "''f.smt2''" _ "()"]
    scan_file_only scan_bad_option
  by (simp add: sat_run_def failing_run_def EXIT_SUCCESS_def EXIT_FAILURE_def)

text \<open>
  C8 as stated fails: on a satisfiable input that parses without error the exit code is
  0, not 10.
\<close>

theorem main_sat_exit_counterexample:
  "fst (parse sat_run () ''f.smt2'') = SAT
   \<and> main sat_run [''bitwuzla'', ''f.smt2''] = 0
   \<and> main sat_run [''bitwuzla'', ''f.smt2'']
       \<noteq> spec_exit_code (fst (parse sat_run () ''f.smt2''))"
  using scan_file_only
  by (simp add: main_def sat_run_def spec_exit_code_def EXIT_SUCCESS_def)

section \<open>Options are copied at construction: theorems\<close>

lemma mutate_bitwuzla_heap: "bitwuzla_heap (mutate w ms) = bitwuzla_heap w"
  by (induction w ms rule: mutate.induct)
    (simp_all add: Options_set_def Options_set_id_def Let_def)

text \<open>
  What the copy keeps: after any sequence of \<^verbatim>\<open>Options::set\<close> calls, on the same
  options object or on any other, the members of the options of the instance hold the
  values the object held when the instance was constructed, so every read through a
  member accessor is unchanged.
\<close>

lemma member_reads_bound_at_construction:
  "read_member (mutate (Bitwuzla_construct w b h) ms) b opt
     = Some (o_members (options_heap w h) opt)"
  by (simp add: read_member_def instance_options_def mutate_bitwuzla_heap
      Bitwuzla_construct_def Bitwuzla_new_def SolvingContext_new_def
      SolvingContext_options_def Env_new_def)

text \<open>
  What the copy shares: when the table of the options object points to the object's
  own members, as \<^verbatim>\<open>Options()\<close> leaves it, a read by identifier through the options
  of the instance gives the value last set on the options object.
\<close>

lemma id_reads_follow_the_handle:
  "o_table (options_heap w h) opt = h
   \<Longrightarrow> read_by_id (Options_set (Bitwuzla_construct w b h) h opt v) b opt = Some v"
  by (simp add: read_by_id_def instance_options_def Options_set_def Options_set_id_def
      Options_get_id_def Let_def Bitwuzla_construct_def Bitwuzla_new_def
      SolvingContext_new_def SolvingContext_options_def Env_new_def)


section \<open>Push and pop: theorems\<close>

text \<open>
  C3 at its failing input: with the incremental option off, \<^verbatim>\<open>push(2)\<close> returns
  normally and leaves the context two levels deeper, and a following \<^verbatim>\<open>pop(1)\<close>
  returns normally as well.
\<close>

theorem push_pop_ignore_incremental:
  "incremental (SolvingContext_options (d_ctx (Bitwuzla_new all_off))) = False
   \<and> d_backtrack_mgr (d_ctx (Bitwuzla_new all_off)) = 0
   \<and> (case Bitwuzla_push (Bitwuzla_new all_off) 2 of
         Inl e \<Rightarrow> False
       | Inr b \<Rightarrow>
           d_backtrack_mgr (d_ctx b) = 2
           \<and> (case Bitwuzla_pop b 1 of
                 Inl e \<Rightarrow> False
               | Inr b' \<Rightarrow> d_backtrack_mgr (d_ctx b') = 1))"
  by (simp add: Bitwuzla_new_def SolvingContext_new_def SolvingContext_options_def
      Env_new_def incremental_def opt_bool_def all_off_def numeral_2_eq_2
      SolvingContext_push_def SolvingContext_pop_def BacktrackManager_push_def
      BacktrackManager_pop_def)

section \<open>The preprocessing loop: lemmas\<close>


lemma run_pass_level: "d_level (snd (run_pass P p st)) = d_level (snd st)"
  by (simp add: run_pass_def split: prod.splits)


lemma run_if_level: "d_level (snd (run_if c P p st)) = d_level (snd st)"
  by (simp add: run_if_def run_pass_level)


lemma begin_iteration_level: "d_level (snd (begin_iteration st)) = d_level (snd st)"
  by (simp add: begin_iteration_def reset_modified_def split: prod.splits)

lemma iteration_level: "d_level (snd (iteration P opts s st)) = d_level (snd st)"
  by (simp add: iteration_def Let_def run_if_level run_pass_level begin_iteration_level)



lemma after_iterations_level:
  "d_level (snd (after_iterations k P opts s st)) = d_level (snd st)"
  by (induction k arbitrary: s st) (simp_all add: iteration_level)













lemma Preprocessor_apply_terminator:
  "Preprocessor_apply fuel P (env\<lparr> d_terminator := t \<rparr>) st = Preprocessor_apply fuel P env st"
  by (simp add: Preprocessor_apply_def)

lemma preprocess_levels_terminator:
  "preprocess_levels fuel P (env\<lparr> d_terminator := t \<rparr>) pp v = preprocess_levels fuel P env pp v"
  by (induction fuel arbitrary: pp v)
    (simp_all add: Preprocessor_apply_terminator Let_def split: option.splits)

lemmas pp_eval =
  Preprocessor_preprocess_def view_empty_def numeral_3_eq_3
  Preprocessor_apply_def AssertionVector_new_def view_level_def av_size_def
  iteration_def Let_def run_if_def run_pass_def begin_iteration_def
  reset_modified_def modified_def sample_passes_def opt_bool_def
  pp_flatten_and_def pp_variable_subst_def pp_skeleton_preproc_def pp_embedded_constr_def
  pp_contr_ands_def pp_normalize_def skel_after_def sync_scope_def pp0_def
  view_store_def set_index_def bool_const_def mk_true_def

section \<open>The preprocessing loop: theorems\<close>





section \<open>The terminator and simplify: theorems\<close>

text \<open>
  C2, as the code has it. Preprocessing does not consult the terminator: whatever
  terminator is configured, and whatever it answers, a call of \<^verbatim>\<open>preprocess()\<close>
  applies the same passes and yields the same assertions and the same result as with
  no terminator. It is not aborted.
\<close>

theorem preprocess_ignores_terminator:
  "Preprocessor_preprocess fuel P (env\<lparr> d_terminator := t \<rparr>) g pp v
     = Preprocessor_preprocess fuel P env g pp v"
  by (simp add: Preprocessor_preprocess_def preprocess_levels_terminator)

lemma sample_terminated:
  "Preprocessor_preprocess 3 sample_passes terminated_env 0 pp0 view0
     = Some (UNKNOWN,
         \<lparr> d_passes = (), d_pp_backtrack_mgr = 0, d_num_iterations = 2,
           d_log = [ResetModified 0, ApplyPass 0 Rewrite, ApplyPass 0 ElimLambda,
                    ApplyPass 0 ElimUninterpreted,
                    ResetModified 0, ApplyPass 0 Rewrite, ApplyPass 0 ElimLambda,
                    ApplyPass 0 ElimUninterpreted] \<rparr>,
         \<lparr> v_stack = [(0, mk_true)], v_index = 1 \<rparr>)"
  by (simp add: pp_eval view0_def terminated_env_def all_off_def)

theorem preprocess_ignores_terminator_witness:
  "Preprocessor_preprocess 3 sample_passes terminated_env 0 pp0 view0
     = Preprocessor_preprocess 3 sample_passes (Env_new all_off) 0 pp0 view0
   \<and> Preprocessor_preprocess 3 sample_passes (Env_new all_off) 0 pp0 view0
     = Some (UNKNOWN,
         \<lparr> d_passes = (), d_pp_backtrack_mgr = 0, d_num_iterations = 2,
           d_log = [ResetModified 0, ApplyPass 0 Rewrite, ApplyPass 0 ElimLambda,
                    ApplyPass 0 ElimUninterpreted,
                    ResetModified 0, ApplyPass 0 Rewrite, ApplyPass 0 ElimLambda,
                    ApplyPass 0 ElimUninterpreted] \<rparr>,
         \<lparr> v_stack = [(0, mk_true)], v_index = 1 \<rparr>)"
proof -
  have e: "(Env_new all_off)\<lparr> d_terminator := Some always_true \<rparr> = terminated_env"
    by (simp add: Env_new_def terminated_env_def)
  from preprocess_ignores_terminator[where fuel = 3 and P = sample_passes
      and env = "Env_new all_off" and t = "Some always_true" and g = 0 and pp = pp0
      and v = view0]
    sample_terminated e
  show ?thesis by simp
qed

text \<open>
  C2 as stated fails: with a terminator that answers true to every call, preprocessing
  does not abort. It runs two full iterations of its passes and rewrites the assertion.
\<close>

theorem terminator_not_queried_counterexample:
  "Env_terminate terminated_env 0 = True
   \<and> Preprocessor_preprocess 3 sample_passes terminated_env 0 pp0 view0
     = Some (UNKNOWN,
         \<lparr> d_passes = (), d_pp_backtrack_mgr = 0, d_num_iterations = 2,
           d_log = [ResetModified 0, ApplyPass 0 Rewrite, ApplyPass 0 ElimLambda,
                    ApplyPass 0 ElimUninterpreted,
                    ResetModified 0, ApplyPass 0 Rewrite, ApplyPass 0 ElimLambda,
                    ApplyPass 0 ElimUninterpreted] \<rparr>,
         \<lparr> v_stack = [(0, mk_true)], v_index = 1 \<rparr>)
   \<and> v_stack view0 = [(0, bool_const)]
   \<and> bool_const \<noteq> mk_true"
  using sample_terminated
  by (simp add: Env_terminate_def terminated_env_def always_true_def view0_def bool_const_def
      mk_true_def)

text \<open>
  C5 at its failing input: with the single assertion true, \<^verbatim>\<open>simplify()\<close> answers
  \<^verbatim>\<open>UNKNOWN\<close>, and so does \<^verbatim>\<open>Preprocessor::preprocess\<close> on that assertion.
\<close>

theorem simplify_true_is_unknown:
  "Bitwuzla_assert_formula (Bitwuzla_new all_off) mk_true = Inr b_true
   \<and> d_assertions (d_ctx b_true) = [(0, mk_true)]
   \<and> Bitwuzla_simplify b_true = UNKNOWN
   \<and> Preprocessor_preprocess 3 sample_passes (d_env (d_ctx b_true)) 0 pp0
        \<lparr> v_stack = d_assertions (d_ctx b_true), v_index = 0 \<rparr>
      = Some (UNKNOWN,
          \<lparr> d_passes = (), d_pp_backtrack_mgr = 0, d_num_iterations = 1,
            d_log = [ResetModified 0, ApplyPass 0 Rewrite, ApplyPass 0 ElimLambda,
                     ApplyPass 0 ElimUninterpreted] \<rparr>,
          \<lparr> v_stack = [(0, mk_true)], v_index = 1 \<rparr>)"
  by (simp add: pp_eval Bitwuzla_assert_formula_def SolvingContext_assert_formula_def
      Bitwuzla_new_def SolvingContext_new_def Env_new_def b_true_def is_bool_def
      Bitwuzla_simplify_def all_off_def)

section \<open>The check for free variables: theorems\<close>

text \<open>
  C9 at its failing input. Both \<open>\<forall>x. \<not> x\<close> and \<open>\<not> x\<close> are of Boolean sort, so
  \<^verbatim>\<open>assert_formula\<close> accepts them in this order. The second assertion has the free
  variable \<open>x\<close>, and asserted alone it makes the check abort with \<open>x\<close> listed. After
  the first assertion the check passes: the traversal of the first assertion has put
  \<open>\<not> x\<close> into the cache that all assertions share, so the traversal of the second
  assertion skips it and records no free variable for it.
\<close>

theorem free_variable_check_misses_cached_subterm:
  "(case SolvingContext_assert_formula (SolvingContext_new all_off) forall_x_not_x of
      Inl e \<Rightarrow> False
    | Inr ctx \<Rightarrow> SolvingContext_assert_formula ctx not_x = Inr ctx_closed_then_open)
   \<and> free_variables forall_x_not_x = {}
   \<and> free_variables not_x = {var_x}
   \<and> check_no_free_variables 20 ctx_open_only = Some (Inl (Abort {var_x}))
   \<and> check_no_free_variables 20 ctx_closed_then_open = Some (Inr ())"
  by (simp add: check_no_free_variables_def ctx_open_only_def ctx_closed_then_open_def
      eval_nat_numeral forall_x_not_x_def not_x_def var_x_def visit_node_def child_vars_def
      is_binder_def SolvingContext_assert_formula_def SolvingContext_new_def is_bool_def)

section \<open>The function solver: lemmas and theorems\<close>

lemma arg_values_eq:
  "\<exists>ext. arg_values C as applies = (map (m_value C) as, applies @ ext)"
proof (induction as arbitrary: applies)
  case Nil
  show ?case by simp
next
  case (Cons a as)
  obtain ext where "arg_values C as (applies @ m_register C a applies)
      = (map (m_value C) as, (applies @ m_register C a applies) @ ext)"
    using Cons.IH by blast
  then show ?case by (simp add: state_value_def)
qed

lemma Apply_new_eq: "\<exists>ext. Apply_new C a applies = (mk_Apply C a, applies @ ext)"
proof -
  obtain ext where "arg_values C (tl (children a)) applies
      = (map (m_value C) (tl (children a)), applies @ ext)"
    using arg_values_eq by blast
  then show ?thesis by (simp add: Apply_new_def mk_Apply_def state_value_def)
qed

lemma find_snoc:
  "find P (xs @ [a]) = (case find P xs of None \<Rightarrow> if P a then Some a else None | Some b \<Rightarrow> Some b)"
  by (induction xs) auto

lemma lemma_at_prefix:
  assumes "j < length apps"
  shows "lemma_at C (apps @ ext) j = lemma_at C apps j"
proof -
  from assms have e1: "(apps @ ext) ! j = apps ! j" by (simp add: nth_append)
  from assms have e2: "take j (apps @ ext) = take j apps" by simp
  show ?thesis unfolding lemma_at_def representative_def by (simp only: e1 e2)
qed

lemma add_lemma_eq:
  "add_function_congruence_lemma C a b = Inr lem \<Longrightarrow> lem = lemma_for C a b"
  by (auto simp: add_function_congruence_lemma_def lemma_for_def Let_def split: if_splits)

lemma check_step_correct:
  assumes step: "check_step C i s = Inr s'"
    and i: "i < length (d_applies s)"
    and inv: "fm_inv C (d_fun_models s) (take i (d_applies s))"
  shows "(\<exists>ext. d_applies s' = d_applies s @ ext)
       \<and> d_lemmas s' = d_lemmas s @ lemma_at C (d_applies s) i
       \<and> fm_inv C (d_fun_models s') (take (Suc i) (d_applies s'))"
proof -
  let ?a = "d_applies s ! i"
  from step obtain fn args where ch: "children ?a = fn # args"
    by (cases "children ?a") (auto simp: check_step_def Let_def)
  obtain ext where an: "Apply_new C ?a (d_applies s) = (mk_Apply C ?a, d_applies s @ ext)"
    using Apply_new_eq by blast
  let ?vs = "map (m_value C) args"
  have key: "app_key C ?a = (fn, ?vs)" by (simp add: app_key_def ch)
  have dv: "d_values (mk_Apply C ?a) = ?vs" by (simp add: mk_Apply_def ch)
  have tk: "take (Suc i) (d_applies s @ ext) = take i (d_applies s) @ [?a]"
    using i by (simp add: take_Suc_conv_app_nth)
  from inv have look: "find (\<lambda>it. d_values it = ?vs) (d_fun_models s fn)
      = map_option (mk_Apply C) (representative C (d_applies s) i)"
    by (simp add: fm_inv_def representative_def key)
  show ?thesis
  proof (cases "representative C (d_applies s) i")
    case None
    with look have fnone: "find (\<lambda>it. d_values it = ?vs) (d_fun_models s fn) = None" by simp
    with step ch an dv have s': "s' = s\<lparr> d_applies := d_applies s @ ext,
        d_fun_models := (d_fun_models s)(fn := d_fun_models s fn @ [mk_Apply C ?a]) \<rparr>"
      by (simp add: check_step_def Let_def)
    have tk': "take (Suc i) (d_applies s') = take i (d_applies s) @ [?a]"
      using tk by (simp add: s')
    have fm': "d_fun_models s' = (d_fun_models s)(fn := d_fun_models s fn @ [mk_Apply C ?a])"
      by (simp add: s')
    have "fm_inv C (d_fun_models s') (take (Suc i) (d_applies s'))"
      unfolding fm_inv_def tk' fm'
    proof (intro allI)
      fix f vs
      show "find (\<lambda>it. d_values it = vs)
              (((d_fun_models s)(fn := d_fun_models s fn @ [mk_Apply C ?a])) f)
        = map_option (mk_Apply C)
            (find (\<lambda>b. app_key C b = (f, vs)) (take i (d_applies s) @ [?a]))"
      proof (cases "f = fn")
        case True
        from inv have "find (\<lambda>it. d_values it = vs) (d_fun_models s fn)
          = map_option (mk_Apply C) (find (\<lambda>b. app_key C b = (fn, vs)) (take i (d_applies s)))"
          by (simp add: fm_inv_def)
        with True show ?thesis
          by (simp add: find_snoc key dv split: option.splits)
      next
        case False
        from inv have "find (\<lambda>it. d_values it = vs) (d_fun_models s f)
          = map_option (mk_Apply C) (find (\<lambda>b. app_key C b = (f, vs)) (take i (d_applies s)))"
          by (simp add: fm_inv_def)
        with False show ?thesis
          by (simp add: find_snoc key split: option.splits)
      qed
    qed
    moreover have "lemma_at C (d_applies s) i = []" by (simp add: lemma_at_def None)
    moreover have "d_applies s' = d_applies s @ ext" "d_lemmas s' = d_lemmas s"
      by (simp_all add: s')
    ultimately show ?thesis by simp
  next
    case (Some b)
    with look have fsome: "find (\<lambda>it. d_values it = ?vs) (d_fun_models s fn) = Some (mk_Apply C b)"
      by simp
    have inv': "fm_inv C (d_fun_models s) (take i (d_applies s) @ [?a])"
      unfolding fm_inv_def
    proof (intro allI)
      fix f vs
      from inv have e: "find (\<lambda>it. d_values it = vs) (d_fun_models s f)
          = map_option (mk_Apply C) (find (\<lambda>b. app_key C b = (f, vs)) (take i (d_applies s)))"
        by (simp add: fm_inv_def)
      show "find (\<lambda>it. d_values it = vs) (d_fun_models s f)
        = map_option (mk_Apply C) (find (\<lambda>b. app_key C b = (f, vs)) (take i (d_applies s) @ [?a]))"
      proof (cases "(f, vs) = (fn, ?vs)")
        case True
        with Some fsome show ?thesis by (simp add: find_snoc representative_def key)
      next
        case False
        then show ?thesis by (auto simp: e find_snoc key split: option.splits)
      qed
    qed
    show ?thesis
    proof (cases "m_value C b \<noteq> m_value C ?a")
      case True
      with step ch an dv fsome obtain lem where
        al: "add_function_congruence_lemma C ?a b = Inr lem"
        and s': "s' = s\<lparr> d_applies := d_applies s @ ext, d_lemmas := d_lemmas s @ [lem] \<rparr>"
        by (auto simp: check_step_def Let_def mk_Apply_def split: sum.splits)
      from al have "lem = lemma_for C ?a b" by (rule add_lemma_eq)
      with True Some have "lemma_at C (d_applies s) i = [lem]" by (simp add: lemma_at_def)
      moreover have "take (Suc i) (d_applies s') = take i (d_applies s) @ [?a]"
        using tk by (simp add: s')
      moreover have "d_applies s' = d_applies s @ ext" "d_lemmas s' = d_lemmas s @ [lem]"
        "d_fun_models s' = d_fun_models s" by (simp_all add: s')
      ultimately show ?thesis using inv' by simp
    next
      case False
      with step ch an dv fsome have s': "s' = s\<lparr> d_applies := d_applies s @ ext \<rparr>"
        by (auto simp: check_step_def Let_def mk_Apply_def)
      from False Some have "lemma_at C (d_applies s) i = []" by (simp add: lemma_at_def)
      moreover have "take (Suc i) (d_applies s') = take i (d_applies s) @ [?a]"
        using tk by (simp add: s')
      moreover have "d_applies s' = d_applies s @ ext" "d_lemmas s' = d_lemmas s"
        "d_fun_models s' = d_fun_models s" by (simp_all add: s')
      ultimately show ?thesis using inv' by simp
    qed
  qed
qed

lemma check_loop_correct:
  "check_loop fuel C i s = Some (Inr s') \<Longrightarrow> i \<le> length (d_applies s)
   \<Longrightarrow> fm_inv C (d_fun_models s) (take i (d_applies s))
   \<Longrightarrow> (\<exists>ext. d_applies s' = d_applies s @ ext)
       \<and> d_lemmas s' = d_lemmas s
           @ concat (map (lemma_at C (d_applies s')) [i..<length (d_applies s')])"
proof (induction fuel arbitrary: i s)
  case 0
  then have "s' = s" "i = length (d_applies s)" by (auto split: if_splits)
  then show ?case by simp
next
  case (Suc fuel)
  show ?case
  proof (cases "i < length (d_applies s)")
    case False
    with Suc.prems have "s' = s" "i = length (d_applies s)" by auto
    then show ?thesis by simp
  next
    case True
    with Suc.prems(1) obtain s1 where st: "check_step C i s = Inr s1"
      and rest: "check_loop fuel C (Suc i) s1 = Some (Inr s')"
      by (auto split: sum.splits)
    from check_step_correct[OF st True Suc.prems(3)] obtain e1 where
      a1: "d_applies s1 = d_applies s @ e1"
      and l1: "d_lemmas s1 = d_lemmas s @ lemma_at C (d_applies s) i"
      and inv1: "fm_inv C (d_fun_models s1) (take (Suc i) (d_applies s1))" by blast
    from True a1 have le: "Suc i \<le> length (d_applies s1)" by simp
    from Suc.IH[OF rest le inv1] obtain e2 where
      a2: "d_applies s' = d_applies s1 @ e2"
      and l2: "d_lemmas s' = d_lemmas s1
           @ concat (map (lemma_at C (d_applies s')) [Suc i..<length (d_applies s')])" by blast
    from a1 a2 have a: "d_applies s' = d_applies s @ (e1 @ e2)" by simp
    from True have "lemma_at C (d_applies s @ (e1 @ e2)) i = lemma_at C (d_applies s) i"
      by (rule lemma_at_prefix)
    with a have la: "lemma_at C (d_applies s) i = lemma_at C (d_applies s') i" by simp
    from True a have "i < length (d_applies s')" by simp
    then have "[i..<length (d_applies s')] = i # [Suc i..<length (d_applies s')]"
      by (simp add: upt_conv_Cons)
    with l1 l2 la have "d_lemmas s' = d_lemmas s
           @ concat (map (lemma_at C (d_applies s')) [i..<length (d_applies s')])" by simp
    with a show ?thesis by blast
  qed
qed

lemma check_step_no_growth:
  "\<forall>t aps. m_register C t aps = [] \<Longrightarrow> check_step C i s = Inr s' \<Longrightarrow> d_applies s' = d_applies s"
proof -
  assume ng: "\<forall>t aps. m_register C t aps = []"
  have av: "arg_values C as aps = (vs, aps') \<Longrightarrow> aps' = aps" for as aps vs aps'
    by (induction as arbitrary: aps vs aps')
      (auto simp: state_value_def ng split: prod.splits)
  have an: "Apply_new C a aps = (ap, aps') \<Longrightarrow> aps' = aps" for a aps ap aps'
    by (auto simp: Apply_new_def state_value_def ng split: prod.splits dest: av)
  assume "check_step C i s = Inr s'"
  then show "d_applies s' = d_applies s"
    by (auto simp: check_step_def Let_def split: list.splits prod.splits option.splits
        if_splits sum.splits dest: an)
qed

lemmas fs_eval = FunSolver_check_def check_step_def Apply_new_def state_value_def
  add_function_congruence_lemma_def Let_def eval_nat_numeral
  app_a_def app_b_def app_c_def fsym_def bv_val_def sample_value_def mk_eq_def
  lemma_for_def mk_Apply_def

lemma sample_check_static: "FunSolver_check 3 static_model solver_abc = Some (Inr solver_abc_checked)"
  by (simp add: fs_eval static_model_def solver_abc_def solver_abc_checked_def)

lemma sample_check_growing: "FunSolver_check 3 growing_model solver_ab = Some (Inr solver_abc_checked)"
  by (simp add: fs_eval growing_model_def static_model_def solver_ab_def solver_abc_checked_def)


lemma check_step_ok:
  assumes i: "i < length (d_applies s)"
    and inv: "fm_inv C (d_fun_models s) (take i (d_applies s))"
    and wf: "\<forall>a\<in>set (d_applies s). kind a = APPLY \<and> children a \<noteq> []"
  shows "\<exists>s'. check_step C i s = Inr s'"
proof -
  let ?a = "d_applies s ! i"
  from i wf have wa: "kind ?a = APPLY" "children ?a \<noteq> []" by auto
  then obtain fn args where ch: "children ?a = fn # args" by (cases "children ?a") auto
  obtain ext where an: "Apply_new C ?a (d_applies s) = (mk_Apply C ?a, d_applies s @ ext)"
    using Apply_new_eq by blast
  let ?vs = "map (m_value C) args"
  have key: "app_key C ?a = (fn, ?vs)" by (simp add: app_key_def ch)
  have dv: "d_values (mk_Apply C ?a) = ?vs" by (simp add: mk_Apply_def ch)
  from inv have look: "find (\<lambda>it. d_values it = ?vs) (d_fun_models s fn)
      = map_option (mk_Apply C) (representative C (d_applies s) i)"
    by (simp add: fm_inv_def representative_def key)
  show ?thesis
  proof (cases "representative C (d_applies s) i")
    case None
    with look ch an dv show ?thesis by (simp add: check_step_def Let_def)
  next
    case (Some b)
    with look have fsome: "find (\<lambda>it. d_values it = ?vs) (d_fun_models s fn) = Some (mk_Apply C b)"
      by simp
    have fd: "find P xs = Some y \<Longrightarrow> y \<in> set xs \<and> P y" for P and xs :: "Node list" and y
      by (induction xs) (auto split: if_splits)
    from Some have "find (\<lambda>b. app_key C b = (fn, ?vs)) (take i (d_applies s)) = Some b"
      by (simp add: representative_def key)
    from fd[OF this] have bin: "b \<in> set (take i (d_applies s))"
      and bk: "app_key C b = (fn, ?vs)" by simp_all
    from bin have "b \<in> set (d_applies s)" by (rule in_set_takeD)
    with wf have wb: "kind b = APPLY" "children b \<noteq> []" by auto
    from bk have "length (tl (children b)) = length args"
      by (auto simp: app_key_def dest: map_eq_imp_length_eq)
    with wb(2) ch have len: "length (children ?a) = length (children b)"
      by (cases "children b") auto
    show ?thesis
    proof (cases "m_value C b \<noteq> m_value C ?a")
      case True
      then have "?a \<noteq> b" by auto
      with len wa wb obtain lem where "add_function_congruence_lemma C ?a b = Inr lem"
        by (auto simp: add_function_congruence_lemma_def Let_def)
      with True ch an dv fsome show ?thesis
        by (simp add: check_step_def Let_def mk_Apply_def)
    next
      case False
      with ch an dv fsome show ?thesis
        by (simp add: check_step_def Let_def mk_Apply_def)
    qed
  qed
qed

lemma check_loop_succeeds:
  "\<forall>t aps. m_register C t aps = [] \<Longrightarrow> length (d_applies s) \<le> i + fuel
   \<Longrightarrow> i \<le> length (d_applies s)
   \<Longrightarrow> fm_inv C (d_fun_models s) (take i (d_applies s))
   \<Longrightarrow> \<forall>a\<in>set (d_applies s). kind a = APPLY \<and> children a \<noteq> []
   \<Longrightarrow> \<exists>s'. check_loop fuel C i s = Some (Inr s')"
proof (induction fuel arbitrary: i s)
  case 0
  then show ?case by simp
next
  case (Suc fuel)
  show ?case
  proof (cases "i < length (d_applies s)")
    case False
    then show ?thesis by simp
  next
    case True
    from check_step_ok[OF True Suc.prems(4) Suc.prems(5)] obtain s1 where
      st: "check_step C i s = Inr s1" by blast
    from check_step_no_growth[OF Suc.prems(1) st] have ap: "d_applies s1 = d_applies s" .
    from check_step_correct[OF st True Suc.prems(4)]
    have inv1: "fm_inv C (d_fun_models s1) (take (Suc i) (d_applies s1))" by blast
    have "\<exists>s'. check_loop fuel C (Suc i) s1 = Some (Inr s')"
      using Suc.prems(2) Suc.prems(5) True inv1
      by (intro Suc.IH[OF Suc.prems(1)]) (simp_all add: ap)
    with st True show ?thesis by simp
  qed
qed

lemma fm_inv_empty: "fm_inv C (\<lambda>f. []) []"
  by (simp add: fm_inv_def)

text \<open>
  C1, as the code has it. \<^verbatim>\<open>check\<close> examines every registered application in
  the order of registration, including those registered while it runs: when it returns,
  the registered applications extend the ones it started with, and the lemmas it has
  handed to the solver state are exactly, for every application \<open>a\<close> in order, the
  lemma \<open>(a\<^sub>1 = b\<^sub>1 \<and> \<dots> \<and> a\<^sub>n = b\<^sub>n) \<Rightarrow> a = b\<close> against its representative \<open>b\<close>, the
  first earlier application of the same function symbol whose arguments have the same
  model values, when there is one and the model values of \<open>a\<close> and \<open>b\<close> differ. When
  computing values registers nothing and every registered term is an application,
  \<^verbatim>\<open>check\<close> returns within as many iterations as there are applications.
\<close>

theorem congruence_lemmas_against_representative:
  "(FunSolver_check fuel C s = Some (Inr s')
      \<longrightarrow> (\<exists>ext. d_applies s' = d_applies s @ ext)
          \<and> d_lemmas s' = d_lemmas s @ expected_lemmas C (d_applies s'))
   \<and> ((\<forall>t aps. m_register C t aps = [])
        \<longrightarrow> (\<forall>a\<in>set (d_applies s). kind a = APPLY \<and> children a \<noteq> [])
        \<longrightarrow> length (d_applies s) \<le> fuel
        \<longrightarrow> (\<exists>s'. FunSolver_check fuel C s = Some (Inr s')))"
proof -
  have A: "(\<exists>ext. d_applies s' = d_applies s @ ext)
          \<and> d_lemmas s' = d_lemmas s @ expected_lemmas C (d_applies s')"
    if "FunSolver_check fuel C s = Some (Inr s')"
  proof -
    from that have "check_loop fuel C 0 (s\<lparr> d_fun_models := (\<lambda>f. []) \<rparr>) = Some (Inr s')"
      by (simp add: FunSolver_check_def)
    from check_loop_correct[OF this] show ?thesis
      by (simp add: fm_inv_empty expected_lemmas_def)
  qed
  have B: "\<exists>s'. FunSolver_check fuel C s = Some (Inr s')"
    if "\<forall>t aps. m_register C t aps = []"
      "\<forall>a\<in>set (d_applies s). kind a = APPLY \<and> children a \<noteq> []"
      "length (d_applies s) \<le> fuel"
    using that unfolding FunSolver_check_def
    by (intro check_loop_succeeds) (simp_all add: fm_inv_empty)
  from A B show ?thesis by blast
qed

theorem congruence_lemmas_witness:
  "FunSolver_check 3 growing_model solver_ab = Some (Inr solver_abc_checked)
   \<and> d_applies solver_abc_checked = d_applies solver_ab @ [app_c]
   \<and> d_lemmas solver_abc_checked
       = d_lemmas solver_ab @ expected_lemmas growing_model (d_applies solver_abc_checked)
   \<and> expected_lemmas growing_model (d_applies solver_abc_checked)
       = [lemma_for growing_model app_c app_a]
   \<and> m_register static_model app_b [app_a] = []
   \<and> kind app_a = APPLY \<and> children app_a \<noteq> []
   \<and> length (d_applies solver_abc) \<le> 3
   \<and> FunSolver_check 3 static_model solver_abc = Some (Inr solver_abc_checked)"
proof -
  have ng: "\<forall>t aps. m_register static_model t aps = []" by (simp add: static_model_def)
  have wf: "\<forall>a\<in>set (d_applies solver_abc). kind a = APPLY \<and> children a \<noteq> []"
    by (simp add: solver_abc_def app_a_def app_b_def app_c_def)
  have len: "length (d_applies solver_abc) \<le> 3" by (simp add: solver_abc_def)
  note t1 = congruence_lemmas_against_representative[where fuel = 3 and C = growing_model
      and s = solver_ab and s' = solver_abc_checked]
  note t2 = congruence_lemmas_against_representative[where fuel = 3 and C = static_model
      and s = solver_abc]
  from t1 sample_check_growing have e: "d_lemmas solver_abc_checked
       = d_lemmas solver_ab @ expected_lemmas growing_model (d_applies solver_abc_checked)"
    by blast
  then have e2: "expected_lemmas growing_model (d_applies solver_abc_checked)
       = [lemma_for growing_model app_c app_a]"
    by (simp add: solver_ab_def solver_abc_checked_def lemma_for_def growing_model_def
        static_model_def)
  from t2 ng wf len have "\<exists>s'. FunSolver_check 3 static_model solver_abc = Some (Inr s')"
    by blast
  with sample_check_static have ok: "FunSolver_check 3 static_model solver_abc = Some (Inr solver_abc_checked)"
    by simp
  have "d_applies solver_abc_checked = d_applies solver_ab @ [app_c]"
    by (simp add: solver_abc_checked_def solver_ab_def)
  moreover have "m_register static_model app_b [app_a] = []" by (simp add: static_model_def)
  moreover have "kind app_a = APPLY \<and> children app_a \<noteq> []" by (simp add: app_a_def)
  ultimately show ?thesis using sample_check_growing e e2 len ok by blast
qed

text \<open>
  C1 as stated fails: \<open>f(y)\<close> and \<open>f(z)\<close> are applications of the same symbol whose
  arguments have equal model values and whose own model values differ, and no lemma
  for this pair is emitted, in either orientation. Both are compared with the
  representative \<open>f(x)\<close> only, and the one lemma emitted is that of \<open>f(z)\<close> against
  \<open>f(x)\<close>.
\<close>

theorem congruence_pair_without_lemma_counterexample:
  "FunSolver_check 3 static_model solver_abc = Some (Inr solver_abc_checked)
   \<and> d_lemmas solver_abc_checked = [lemma_for static_model app_c app_a]
   \<and> hd (children app_b) = hd (children app_c)
   \<and> map (m_value static_model) (tl (children app_b))
       = map (m_value static_model) (tl (children app_c))
   \<and> m_value static_model app_b \<noteq> m_value static_model app_c
   \<and> lemma_for static_model app_b app_c \<notin> set (d_lemmas solver_abc_checked)
   \<and> lemma_for static_model app_c app_b \<notin> set (d_lemmas solver_abc_checked)"
  using sample_check_static
  by (simp add: solver_abc_checked_def lemma_for_def static_model_def sample_value_def
      app_a_def app_b_def app_c_def bv_val_def mk_eq_def fsym_def)

section \<open>Model values: theorems\<close>




end
